theory Spec2Isabelle
  imports Complex_Main "HOL-Library.Multiset" "HOL-Library.AList"
begin

section \<open>Python values\<close>

text \<open>The exceptions the modelled code can raise or let through.\<close>

datatype exn =
    IndexError
  | KeyError string
  | TypeError
  | AttributeError
  | ValueError
  | JSONDecodeError
  | RuntimeError string
  | OverflowError
  | Timeout
  | ConnectionError

text \<open>Sequencing of computations that may raise: the first exception ends the run.\<close>

definition and_then :: "exn + 'a \<Rightarrow> ('a \<Rightarrow> exn + 'b) \<Rightarrow> exn + 'b" where
  "and_then m f = (case m of Inl e \<Rightarrow> Inl e | Inr x \<Rightarrow> f x)"

text \<open>\<^verbatim>\<open>str(n)\<close> for an integer: decimal digits, with a minus sign below zero.\<close>

definition digit_char :: "nat \<Rightarrow> char" where
  "digit_char d = ''0123456789'' ! d"

function str_nat :: "nat \<Rightarrow> string" where
  "str_nat n = (if n < 10 then [digit_char n] else str_nat (n div 10) @ [digit_char (n mod 10)])"
  by pat_completeness auto
termination
  by (relation "measure (\<lambda>n. n)") auto

declare str_nat.simps [simp del]

definition str_int :: "int \<Rightarrow> string" where
  "str_int i = (if i < 0 then CHR ''-'' # str_nat (nat (- i)) else str_nat (nat i))"

text \<open>\<^verbatim>\<open>sub in s\<close> on strings.\<close>

fun startswith :: "string \<Rightarrow> string \<Rightarrow> bool" where
  "startswith s [] = True"
| "startswith [] (c # cs) = False"
| "startswith (d # ds) (c # cs) = (d = c \<and> startswith ds cs)"

fun contains :: "string \<Rightarrow> string \<Rightarrow> bool" where
  "contains [] sub = (sub = [])"
| "contains (c # s) sub = (startswith (c # s) sub \<or> contains s sub)"

section \<open>Python floats\<close>

text \<open>
  A Python float is an IEEE-754 double: a real number of the form \<open>m * 2^e\<close> with
  \<open>\<bar>m\<bar> < 2^53\<close> and \<open>- 1074 \<le> e\<close>, of magnitude at most \<open>DBL_MAX\<close>, or an infinity, or NaN.
  The two zeros are not told apart.
\<close>

datatype pyfloat = Finite real | PosInf | NegInf | NaN

definition DBL_MAX :: real where
  "DBL_MAX = (2 ^ 53 - 1) * 2 ^ 971"

text \<open>
  Rounding to nearest, ties to even, with the exponent unbounded above: the exponent of a
  real (at least -1022, below which the floats are subnormal), its unit in the last place,
  and the nearest multiple of that unit.
\<close>

definition float_exponent :: "real \<Rightarrow> int" where
  "float_exponent x = max \<lfloor>log 2 \<bar>x\<bar>\<rfloor> (- 1022)"

definition ulp :: "real \<Rightarrow> real" where
  "ulp x = 2 powi (float_exponent x - 52)"

definition round_half_even :: "real \<Rightarrow> int" where
  "round_half_even q =
     (let n = \<lfloor>q\<rfloor>; r = q - of_int n
      in if r < 1 / 2 then n else if 1 / 2 < r then n + 1 else if even n then n else n + 1)"

definition round_double :: "real \<Rightarrow> real" where
  "round_double x = (if x = 0 then 0 else of_int (round_half_even (x / ulp x)) * ulp x)"

text \<open>The float an exact result becomes: rounded, and an infinity beyond \<open>DBL_MAX\<close>.\<close>

definition to_float :: "real \<Rightarrow> pyfloat" where
  "to_float x =
     (let y = round_double x
      in if DBL_MAX < y then PosInf else if y < - DBL_MAX then NegInf else Finite y)"

text \<open>The reals that are finite floats.\<close>

definition is_double :: "real \<Rightarrow> bool" where
  "is_double x = (round_double x = x \<and> \<bar>x\<bar> \<le> DBL_MAX)"

text \<open>\<^verbatim>\<open>x * y\<close> and \<^verbatim>\<open>x + y\<close> on floats.\<close>

fun fmul :: "pyfloat \<Rightarrow> pyfloat \<Rightarrow> pyfloat" where
  "fmul (Finite a) (Finite b) = to_float (a * b)"
| "fmul NaN y = NaN"
| "fmul x NaN = NaN"
| "fmul (Finite a) PosInf = (if a = 0 then NaN else if 0 < a then PosInf else NegInf)"
| "fmul (Finite a) NegInf = (if a = 0 then NaN else if 0 < a then NegInf else PosInf)"
| "fmul PosInf (Finite b) = (if b = 0 then NaN else if 0 < b then PosInf else NegInf)"
| "fmul NegInf (Finite b) = (if b = 0 then NaN else if 0 < b then NegInf else PosInf)"
| "fmul PosInf PosInf = PosInf"
| "fmul PosInf NegInf = NegInf"
| "fmul NegInf PosInf = NegInf"
| "fmul NegInf NegInf = PosInf"

fun fadd :: "pyfloat \<Rightarrow> pyfloat \<Rightarrow> pyfloat" where
  "fadd (Finite a) (Finite b) = to_float (a + b)"
| "fadd NaN y = NaN"
| "fadd x NaN = NaN"
| "fadd PosInf NegInf = NaN"
| "fadd NegInf PosInf = NaN"
| "fadd PosInf y = PosInf"
| "fadd NegInf y = NegInf"
| "fadd x PosInf = PosInf"
| "fadd x NegInf = NegInf"

text \<open>
  The conversion of an int to a float, which a float operation applies to an int operand:
  OverflowError when the int rounds beyond \<open>DBL_MAX\<close>.
\<close>

definition int_to_float :: "int \<Rightarrow> exn + pyfloat" where
  "int_to_float n =
     (case to_float (of_int n) of
        Finite y \<Rightarrow> Inr (Finite y)
      | _ \<Rightarrow> Inl OverflowError)"

text \<open>
  \<^verbatim>\<open>2 ** attempt\<close> for an int \<^verbatim>\<open>attempt\<close>: an int from 0 on, and below 0 the float power (both
  operands converted to floats).
\<close>

definition two_to_the :: "int \<Rightarrow> exn + (int + pyfloat)" where
  "two_to_the attempt =
     (if 0 \<le> attempt then Inr (Inl (2 ^ nat attempt))
      else and_then (int_to_float attempt) (\<lambda>e. Inr (Inr (to_float (2 powi attempt)))))"

text \<open>\<^verbatim>\<open>x * y\<close> for a float \<open>x\<close> and an int or float \<open>y\<close>.\<close>

definition float_times :: "pyfloat \<Rightarrow> int + pyfloat \<Rightarrow> exn + pyfloat" where
  "float_times x y =
     (case y of
        Inl n \<Rightarrow> and_then (int_to_float n) (\<lambda>f. Inr (fmul x f))
      | Inr f \<Rightarrow> Inr (fmul x f))"

section \<open>The random source\<close>

text \<open>
  Every draw of Python's \<^verbatim>\<open>random\<close> module is an input of the model. A raw draw is a
  natural number; \<^verbatim>\<open>randbelow(n)\<close> reduces it below \<open>n\<close>.
\<close>

definition randbelow :: "nat \<Rightarrow> nat \<Rightarrow> nat" where
  "randbelow raw n = raw mod n"

text \<open>
  \<^verbatim>\<open>random.shuffle(x)\<close>, as CPython writes it:
  \<^verbatim>\<open>for i in reversed(range(1, len(x))): j = randbelow(i + 1); x[i], x[j] = x[j], x[i]\<close>.
  The draw made at index \<open>i\<close> is \<open>rnd i\<close>.
\<close>

fun shuffle_loop :: "(nat \<Rightarrow> nat) \<Rightarrow> nat \<Rightarrow> 'a list \<Rightarrow> 'a list" where
  "shuffle_loop rnd 0 x = x"
| "shuffle_loop rnd (Suc k) x =
     (let i = Suc k; j = randbelow (rnd i) (i + 1)
      in shuffle_loop rnd k (x[i := x ! j, j := x ! i]))"

definition shuffle :: "(nat \<Rightarrow> nat) \<Rightarrow> 'a list \<Rightarrow> 'a list" where
  "shuffle rnd x = shuffle_loop rnd (length x - 1) x"

text \<open>
  \<^verbatim>\<open>random.choice(seq)\<close> is \<^verbatim>\<open>seq[randbelow(len(seq))]\<close> and raises IndexError on an
  empty sequence.
\<close>

fun choice :: "nat \<Rightarrow> 'a list \<Rightarrow> exn + 'a" where
  "choice raw [] = Inl IndexError"
| "choice raw (x # xs) = Inr ((x # xs) ! randbelow raw (length (x # xs)))"

text \<open>
  \<^verbatim>\<open>random.random()\<close>: CPython returns a 53-bit integer divided by \<open>2^53\<close>, a float in
  \<open>[0, 1)\<close>.
\<close>

definition random_uniform :: "nat \<Rightarrow> real" where
  "random_uniform raw = real (raw mod 2 ^ 53) / 2 ^ 53"

section \<open>Strings\<close>

text \<open>
  Python's \<^verbatim>\<open>sep.join(parts)\<close>.
\<close>

fun join :: "string \<Rightarrow> string list \<Rightarrow> string" where
  "join sep [] = []"
| "join sep [x] = x"
| "join sep (x # y # ys) = x @ sep @ join sep (y # ys)"

text \<open>
  Python's \<^verbatim>\<open>s.split(c)\<close> for a one-character separator. The generators never split
  a string; the fields of a fingerprint string are read back with it.
\<close>

fun split_on :: "char \<Rightarrow> string \<Rightarrow> string list" where
  "split_on c [] = [[]]"
| "split_on c (x # xs) =
     (if x = c then [] # split_on c xs
      else (case split_on c xs of
              [] \<Rightarrow> [[x]]
            | w # ws \<Rightarrow> (x # w) # ws))"

section \<open>JA3Generator (fingerprint/ja3.py)\<close>

definition TLS_VERSION :: string where
  "TLS_VERSION = ''771''"

definition CIPHERS :: string where
  "CIPHERS = ''4865-4866-4867-49195-49199-49196-49200-52393-52392-49171-49172-156-157-47-53''"

definition BASE_EXTENSIONS :: "string list" where
  "BASE_EXTENSIONS =
     [''0'', ''5'', ''10'', ''11'', ''13'', ''16'', ''18'', ''23'', ''27'', ''35'',
      ''43'', ''45'', ''51'', ''65037'', ''65281'']"

definition ECH_EXTENSION :: string where
  "ECH_EXTENSION = ''17613''"

text \<open>\<^verbatim>\<open>CURVE_SETS["old"]\<close> and \<^verbatim>\<open>CURVE_SETS["kyber"]\<close>.\<close>

definition CURVE_SETS_old :: string where
  "CURVE_SETS_old = ''29-23-24''"

definition CURVE_SETS_kyber :: string where
  "CURVE_SETS_kyber = ''4588-29-23-24''"

definition EC_POINT_FORMATS :: string where
  "EC_POINT_FORMATS = ''0''"

definition permute_extensions :: "(nat \<Rightarrow> nat) \<Rightarrow> string list \<Rightarrow> string list" where
  "permute_extensions rnd extensions = shuffle rnd extensions"

text \<open>
  \<^verbatim>\<open>JA3Generator.generate(version, browser_type)\<close>. The body never reads
  \<^verbatim>\<open>browser_type\<close>.
\<close>

definition ja3_generate :: "(nat \<Rightarrow> nat) \<Rightarrow> int \<Rightarrow> string \<Rightarrow> string" where
  "ja3_generate rnd version browser_type =
     (let extensions = BASE_EXTENSIONS;
          extensions = (if version \<ge> 117 then extensions @ [ECH_EXTENSION] else extensions);
          extensions = permute_extensions rnd extensions;
          curves = (if version \<ge> 130 then CURVE_SETS_kyber else CURVE_SETS_old);
          ext_str = join ''-'' extensions
      in TLS_VERSION @ '','' @ CIPHERS @ '','' @ ext_str @ '','' @ curves @ '','' @ EC_POINT_FORMATS)"

text \<open>The five comma-separated fields of a JA3 string, read back.\<close>

definition ja3_fields :: "string \<Rightarrow> string list" where
  "ja3_fields s = split_on (CHR '','') s"

definition ja3_extension_field :: "string \<Rightarrow> string list" where
  "ja3_extension_field s = split_on (CHR ''-'') (ja3_fields s ! 2)"

definition ja3_curve_field :: "string \<Rightarrow> string list" where
  "ja3_curve_field s = split_on (CHR ''-'') (ja3_fields s ! 3)"

text \<open>The extension list \<^verbatim>\<open>generate\<close> builds before it permutes it.\<close>

definition ja3_extensions :: "int \<Rightarrow> string list" where
  "ja3_extensions version =
     (if version \<ge> 117 then BASE_EXTENSIONS @ [ECH_EXTENSION] else BASE_EXTENSIONS)"

section \<open>AkamaiGenerator (fingerprint/akamai.py)\<close>

definition WINDOW_UPDATE_VALUES :: "int list" where
  "WINDOW_UPDATE_VALUES =
     [15663105, 15728640, 15794175, 15859710, 15925245,
      15990780, 16056315, 16121850, 16187385, 16252920]"

definition PRIORITY_VALUES :: "string list" where
  "PRIORITY_VALUES = [''0'', ''0'', ''0'', ''1'', ''3'']"

definition PSEUDO_HEADER_ORDERS :: "string list" where
  "PSEUDO_HEADER_ORDERS = [''m,a,s,p'', ''m,s,a,p'', ''m,p,a,s'']"

text \<open>
  The draws one call of \<^verbatim>\<open>AkamaiGenerator.generate\<close> makes: \<^verbatim>\<open>random.random()\<close> for the
  inclusion of MAX_CONCURRENT_STREAMS, then the four \<^verbatim>\<open>random.choice\<close> calls.
\<close>

record akamai_draws =
  mcs_raw :: nat
  mcs_pick :: nat
  window_pick :: nat
  priority_pick :: nat
  pseudo_pick :: nat

definition generate_settings :: "akamai_draws \<Rightarrow> string \<Rightarrow> exn + string" where
  "generate_settings d browser_type =
     (let header_table_size = ''1:65536'';
          initial_window_size = ''4:6291456'';
          max_header_list_size = ''6:262144''
      in if browser_type = ''safari'' then Inr ''1:4096;4:4194304;6:262144''
         else
           let enable_push = (if browser_type \<in> set [''chrome'', ''brave''] then Some ''2:0'' else None)
           in and_then
                (if random_uniform (mcs_raw d) < 0.4
                 then and_then (choice (mcs_pick d) [100, 200, 500, 1000 :: int])
                        (\<lambda>n. Inr (Some (''3:'' @ str_int n)))
                 else Inr None)
                (\<lambda>max_concurrent.
                   let parts = [header_table_size];
                       parts = (case enable_push of Some e \<Rightarrow> parts @ [e] | None \<Rightarrow> parts);
                       parts = (case max_concurrent of Some m \<Rightarrow> parts @ [m] | None \<Rightarrow> parts);
                       parts = parts @ [initial_window_size, max_header_list_size]
                   in Inr (join '';'' parts)))"

definition akamai_generate :: "akamai_draws \<Rightarrow> string \<Rightarrow> exn + string" where
  "akamai_generate d browser_type =
     and_then (generate_settings d browser_type) (\<lambda>settings.
     and_then (choice (window_pick d) WINDOW_UPDATE_VALUES) (\<lambda>window_update.
     and_then (choice (priority_pick d) PRIORITY_VALUES) (\<lambda>priority.
     and_then (choice (pseudo_pick d) PSEUDO_HEADER_ORDERS) (\<lambda>pseudo_order.
       Inr (settings @ ''|'' @ str_int window_update @ ''|'' @ priority @ ''|'' @ pseudo_order)))))"

subsection \<open>Concrete draws\<close>

text \<open>Two shuffles: every draw 0, and the draw at index \<open>i\<close> equal to \<open>i\<close> (no swap moves).\<close>

definition draws_zero :: "nat \<Rightarrow> nat" where
  "draws_zero i = 0"

definition draws_self :: "nat \<Rightarrow> nat" where
  "draws_self i = i"

definition akamai_draws_a :: akamai_draws where
  "akamai_draws_a =
     \<lparr>mcs_raw = 0, mcs_pick = 6, window_pick = 13, priority_pick = 4, pseudo_pick = 2\<rparr>"

definition akamai_draws_b :: akamai_draws where
  "akamai_draws_b =
     \<lparr>mcs_raw = 4503599627370496, mcs_pick = 0, window_pick = 0, priority_pick = 0, pseudo_pick = 0\<rparr>"

section \<open>RetryConfig and RetryMixin (retry.py)\<close>

text \<open>
  The transport's response, as far as the retry engine reads it: the status code, and the
  body so that two responses with one status can differ. A response object is truthy.
\<close>

record response =
  status_code :: int
  content :: string

text \<open>
  The dataclass \<^verbatim>\<open>RetryConfig\<close>. The backoff factor is a float, as the field is annotated and
  defaulted; nothing in the class restricts its value.
\<close>

record retry_config =
  max_retries :: int
  backoff_factor :: pyfloat
  retry_on_status :: "int list"
  retry_on_timeout :: bool
  jitter :: bool

text \<open>The dataclass defaults.\<close>

definition default_retry_config :: retry_config where
  "default_retry_config =
     \<lparr>max_retries = 3, backoff_factor = Finite 0.5, retry_on_status = [429, 500, 502, 503, 504],
      retry_on_timeout = True, jitter = True\<rparr>"

text \<open>
  \<^verbatim>\<open>should_retry(response, exception)\<close>. An exception object is truthy, so
  \<^verbatim>\<open>if exception:\<close> asks whether one was passed; its class is never inspected.
\<close>

definition should_retry :: "retry_config \<Rightarrow> response option \<Rightarrow> exn option \<Rightarrow> bool" where
  "should_retry cfg resp exception =
     (case exception of
        Some e \<Rightarrow> retry_on_timeout cfg
      | None \<Rightarrow>
          (case resp of
             Some r \<Rightarrow> if status_code r \<in> set (retry_on_status cfg) then True else False
           | None \<Rightarrow> False))"

text \<open>
  \<^verbatim>\<open>get_backoff_time(attempt)\<close>: \<^verbatim>\<open>self.backoff_factor * (2 ** attempt)\<close>, then with jitter
  \<^verbatim>\<open>delay * (0.5 + random.random() * 0.5)\<close>, all in float arithmetic. \<open>raw\<close> is the draw behind
  \<^verbatim>\<open>random.random()\<close>, made only when jitter is on.
\<close>

definition get_backoff_time :: "retry_config \<Rightarrow> nat \<Rightarrow> int \<Rightarrow> exn + pyfloat" where
  "get_backoff_time cfg raw attempt =
     and_then (two_to_the attempt) (\<lambda>p.
     and_then (float_times (backoff_factor cfg) p) (\<lambda>delay.
       if jitter cfg
       then Inr (fmul delay (fadd (Finite 0.5) (fmul (Finite (random_uniform raw)) (Finite 0.5))))
       else Inr delay))"

text \<open>
  \<^verbatim>\<open>time.sleep(secs)\<close> for a float, as CPython does it: the seconds become nanoseconds
  (multiplied by \<open>1e9\<close> as floats, rounded away from zero to an integer), ValueError for NaN,
  OverflowError when they do not fit 64 bits, ValueError when they are negative.
\<close>

definition round_away :: "real \<Rightarrow> int" where
  "round_away d = (if 0 \<le> d then \<lceil>d\<rceil> else \<lfloor>d\<rfloor>)"

definition time_sleep :: "pyfloat \<Rightarrow> exn + unit" where
  "time_sleep secs =
     (case secs of
        NaN \<Rightarrow> Inl ValueError
      | PosInf \<Rightarrow> Inl OverflowError
      | NegInf \<Rightarrow> Inl OverflowError
      | Finite s \<Rightarrow>
          (let ns = round_away (round_double (s * 10 ^ 9))
           in if ns < - (2 ^ 63) \<or> 2 ^ 63 \<le> ns then Inl OverflowError
              else if ns < 0 then Inl ValueError
              else Inr ()))"

text \<open>
  What one run of \<^verbatim>\<open>request_with_retry\<close> has done so far: the calls made to the request
  function, the jitter draws consumed, the delays slept, and the two locals
  \<^verbatim>\<open>last_exception\<close> and \<^verbatim>\<open>last_response\<close> (the latter is never assigned).
\<close>

record retry_state =
  calls :: nat
  draws :: nat
  slept :: "pyfloat list"
  last_exception :: "exn option"
  last_response :: "response option"

definition initial_retry_state :: retry_state where
  "initial_retry_state =
     \<lparr>calls = 0, draws = 0, slept = [], last_exception = None, last_response = None\<rparr>"

datatype step = Continue retry_state | Return response retry_state | Raise exn retry_state

text \<open>
  The common tail of both branches: compute the backoff (one draw when jitter is on), log,
  sleep. The result is the exception of \<^verbatim>\<open>get_backoff_time\<close> or of \<^verbatim>\<open>time.sleep\<close>, or the
  state after the sleep.
\<close>

definition backoff_and_sleep :: "retry_config \<Rightarrow> (nat \<Rightarrow> nat) \<Rightarrow> int \<Rightarrow> retry_state \<Rightarrow> exn \<times> retry_state + retry_state" where
  "backoff_and_sleep cfg jit attempt st0 =
     (case get_backoff_time cfg (jit (draws st0)) attempt of
        Inl e \<Rightarrow> Inl (e, st0)
      | Inr backoff \<Rightarrow>
          (let st = (if jitter cfg then st0\<lparr>draws := draws st0 + 1\<rparr> else st0)
           in case time_sleep backoff of
                Inl e \<Rightarrow> Inl (e, st)
              | Inr u \<Rightarrow> Inr (st\<lparr>slept := slept st @ [backoff]\<rparr>)))"

text \<open>The \<^verbatim>\<open>except Exception as e\<close> clause. An exception raised inside it leaves the function.\<close>

definition on_exception :: "retry_config \<Rightarrow> (nat \<Rightarrow> nat) \<Rightarrow> int \<Rightarrow> exn \<Rightarrow> retry_state \<Rightarrow> step" where
  "on_exception cfg jit attempt e st0 =
     (let st = st0\<lparr>last_exception := Some e\<rparr>
      in if should_retry cfg None (Some e) then
           if attempt < max_retries cfg then
             (case backoff_and_sleep cfg jit attempt st of
                Inl (e', st') \<Rightarrow> Raise e' st'
              | Inr st' \<Rightarrow> Continue st')
           else Raise e st
         else Raise e st)"

text \<open>
  One iteration of the loop. The request function is given by its outcomes: \<open>req n\<close> is what
  call number \<open>n\<close> (from 0) raises or returns. The whole \<^verbatim>\<open>try\<close> body is guarded, so a failing
  sleep lands in the \<^verbatim>\<open>except\<close> clause too.
\<close>

definition attempt_step :: "retry_config \<Rightarrow> (nat \<Rightarrow> nat) \<Rightarrow> (nat \<Rightarrow> exn + response) \<Rightarrow> int \<Rightarrow> retry_state \<Rightarrow> step" where
  "attempt_step cfg jit req attempt st0 =
     (let st = st0\<lparr>calls := calls st0 + 1\<rparr>
      in case req (calls st0) of
           Inl e \<Rightarrow> on_exception cfg jit attempt e st
         | Inr r \<Rightarrow>
             if should_retry cfg (Some r) None then
               if attempt < max_retries cfg then
                 (case backoff_and_sleep cfg jit attempt st of
                    Inl (e, st') \<Rightarrow> on_exception cfg jit attempt e st'
                  | Inr st' \<Rightarrow> Continue st')
               else Return r st
             else Return r st)"

text \<open>\<^verbatim>\<open>range(n)\<close>.\<close>

definition py_range :: "int \<Rightarrow> int list" where
  "py_range n = [0..n - 1]"

text \<open>
  The \<^verbatim>\<open>for\<close> loop over the attempts, and the code after it, reached when the range is
  exhausted.
\<close>

fun retry_loop :: "retry_config \<Rightarrow> (nat \<Rightarrow> nat) \<Rightarrow> (nat \<Rightarrow> exn + response) \<Rightarrow> int list \<Rightarrow> retry_state \<Rightarrow> (exn + response) \<times> retry_state" where
  "retry_loop cfg jit req [] st =
     (case last_exception st of
        Some e \<Rightarrow> (Inl e, st)
      | None \<Rightarrow>
          (case last_response st of
             Some r \<Rightarrow> (Inr r, st)
           | None \<Rightarrow> (Inl (RuntimeError ''All retries exhausted without response''), st)))"
| "retry_loop cfg jit req (attempt # rest) st =
     (case attempt_step cfg jit req attempt st of
        Continue st' \<Rightarrow> retry_loop cfg jit req rest st'
      | Return r st' \<Rightarrow> (Inr r, st')
      | Raise e st' \<Rightarrow> (Inl e, st'))"

definition request_with_retry :: "retry_config \<Rightarrow> (nat \<Rightarrow> nat) \<Rightarrow> (nat \<Rightarrow> exn + response) \<Rightarrow> (exn + response) \<times> retry_state" where
  "request_with_retry cfg jit req =
     retry_loop cfg jit req (py_range (max_retries cfg + 1)) initial_retry_state"

subsection \<open>Concrete retry runs\<close>

definition service_unavailable :: "nat \<Rightarrow> exn + response" where
  "service_unavailable n = Inr \<lparr>status_code = 503, content = str_int (int n)\<rparr>"



definition two_retries :: retry_config where
  "two_retries = default_retry_config\<lparr>max_retries := 2\<rparr>"

definition one_retry_no_jitter :: retry_config where
  "one_retry_no_jitter = default_retry_config\<lparr>max_retries := 1, jitter := False\<rparr>"


definition negative_backoff :: retry_config where
  "negative_backoff = two_retries\<lparr>backoff_factor := Finite (- 1), jitter := False\<rparr>"

section \<open>UserAgentGenerator (fingerprint/user_agent.py)\<close>

record ua_info =
  ua :: string
  ua_sec_ch_ua :: "string option"
  ua_platform :: string
  ua_mobile :: bool

definition PLATFORM_WEIGHTS :: "(string \<times> real) list" where
  "PLATFORM_WEIGHTS = [(''Windows'', 0.50), (''iOS'', 0.30), (''Android'', 0.20), (''macOS'', 0.20)]"

definition PROFILES :: "ua_info list" where
  \<open>PROFILES =
      [
       \<lparr>ua = ''Mozilla/5.0 (Windows NT 10.0; Win64; x64) AppleWebKit/537.36 (KHTML, like Gecko) Chrome/144.0.0.0 Safari/537.36'',
         ua_sec_ch_ua = Some ''"Not(A:Brand";v="8", "Chromium";v="144", "Google Chrome";v="144"'',
         ua_platform = ''Windows'', ua_mobile = False\<rparr>,
       \<lparr>ua = ''Mozilla/5.0 (Windows NT 10.0; Win64; x64) AppleWebKit/537.36 (KHTML, like Gecko) Chrome/143.0.0.0 Safari/537.36'',
         ua_sec_ch_ua = Some ''"Chromium";v="143", "Not/A)Brand";v="24", "Google Chrome";v="143"'',
         ua_platform = ''Windows'', ua_mobile = False\<rparr>,
       \<lparr>ua = ''Mozilla/5.0 (Windows NT 10.0; Win64; x64) AppleWebKit/537.36 (KHTML, like Gecko) Chrome/142.0.0.0 Safari/537.36'',
         ua_sec_ch_ua = Some ''"Chromium";v="142", "Not/A)Brand";v="24", "Google Chrome";v="142"'',
         ua_platform = ''Windows'', ua_mobile = False\<rparr>,
       \<lparr>ua = ''Mozilla/5.0 (Windows NT 10.0; Win64; x64) AppleWebKit/537.36 (KHTML, like Gecko) Chrome/141.0.0.0 Safari/537.36'',
         ua_sec_ch_ua = Some ''"Chromium";v="141", "Not_A Brand";v="24", "Google Chrome";v="141"'',
         ua_platform = ''Windows'', ua_mobile = False\<rparr>,
       \<lparr>ua = ''Mozilla/5.0 (Windows NT 10.0; Win64; x64) AppleWebKit/537.36 (KHTML, like Gecko) Chrome/143.0.0.0 Safari/537.36'',
         ua_sec_ch_ua = Some ''"Brave";v="143", "Chromium";v="143", "Not/A)Brand";v="24"'',
         ua_platform = ''Windows'', ua_mobile = False\<rparr>,
       \<lparr>ua = ''Mozilla/5.0 (Windows NT 10.0; Win64; x64) AppleWebKit/537.36 (KHTML, like Gecko) Chrome/142.0.0.0 Safari/537.36'',
         ua_sec_ch_ua = Some ''"Brave";v="142", "Chromium";v="142", "Not/A)Brand";v="24"'',
         ua_platform = ''Windows'', ua_mobile = False\<rparr>,
       \<lparr>ua = ''Mozilla/5.0 (Windows NT 10.0; Win64; x64) AppleWebKit/537.36 (KHTML, like Gecko) Chrome/143.0.0.0 Safari/537.36 Edg/143.0.0.0'',
         ua_sec_ch_ua = Some ''"Chromium";v="143", "Not/A)Brand";v="24", "Microsoft Edge";v="143"'',
         ua_platform = ''Windows'', ua_mobile = False\<rparr>,
       \<lparr>ua = ''Mozilla/5.0 (Windows NT 10.0; Win64; x64) AppleWebKit/537.36 (KHTML, like Gecko) Chrome/142.0.0.0 Safari/537.36 Edg/142.0.0.0'',
         ua_sec_ch_ua = Some ''"Chromium";v="142", "Not/A)Brand";v="24", "Microsoft Edge";v="142"'',
         ua_platform = ''Windows'', ua_mobile = False\<rparr>,
       \<lparr>ua = ''Mozilla/5.0 (Macintosh; Intel Mac OS X 10_15_7) AppleWebKit/537.36 (KHTML, like Gecko) Chrome/144.0.0.0 Safari/537.36'',
         ua_sec_ch_ua = Some ''"Not(A:Brand";v="8", "Chromium";v="144", "Google Chrome";v="144"'',
         ua_platform = ''macOS'', ua_mobile = False\<rparr>,
       \<lparr>ua = ''Mozilla/5.0 (Macintosh; Intel Mac OS X 10_15_7) AppleWebKit/537.36 (KHTML, like Gecko) Chrome/143.0.0.0 Safari/537.36'',
         ua_sec_ch_ua = Some ''"Chromium";v="143", "Not/A)Brand";v="24", "Google Chrome";v="143"'',
         ua_platform = ''macOS'', ua_mobile = False\<rparr>,
       \<lparr>ua = ''Mozilla/5.0 (Macintosh; Intel Mac OS X 10_15_7) AppleWebKit/537.36 (KHTML, like Gecko) Chrome/142.0.0.0 Safari/537.36'',
         ua_sec_ch_ua = Some ''"Chromium";v="142", "Not/A)Brand";v="24", "Google Chrome";v="142"'',
         ua_platform = ''macOS'', ua_mobile = False\<rparr>,
       \<lparr>ua = ''Mozilla/5.0 (Macintosh; Intel Mac OS X 10_15_7) AppleWebKit/537.36 (KHTML, like Gecko) Chrome/141.0.0.0 Safari/537.36'',
         ua_sec_ch_ua = Some ''"Chromium";v="141", "Not_A Brand";v="24", "Google Chrome";v="141"'',
         ua_platform = ''macOS'', ua_mobile = False\<rparr>,
       \<lparr>ua = ''Mozilla/5.0 (Macintosh; Intel Mac OS X 10_15_7) AppleWebKit/537.36 (KHTML, like Gecko) Chrome/143.0.0.0 Safari/537.36'',
         ua_sec_ch_ua = Some ''"Brave";v="143", "Chromium";v="143", "Not/A)Brand";v="24"'',
         ua_platform = ''macOS'', ua_mobile = False\<rparr>,
       \<lparr>ua = ''Mozilla/5.0 (Macintosh; Intel Mac OS X 10_15_7) AppleWebKit/605.1.15 (KHTML, like Gecko) Version/18.3 Safari/605.1.15'',
         ua_sec_ch_ua = None,
         ua_platform = ''macOS'', ua_mobile = False\<rparr>,
       \<lparr>ua = ''Mozilla/5.0 (Macintosh; Intel Mac OS X 10_15_7) AppleWebKit/605.1.15 (KHTML, like Gecko) Version/17.6 Safari/605.1.15'',
         ua_sec_ch_ua = None,
         ua_platform = ''macOS'', ua_mobile = False\<rparr>,
       \<lparr>ua = ''Mozilla/5.0 (iPhone; CPU iPhone OS 18_3 like Mac OS X) AppleWebKit/605.1.15 (KHTML, like Gecko) Version/18.3 Mobile/15E148 Safari/604.1'',
         ua_sec_ch_ua = None,
         ua_platform = ''iOS'', ua_mobile = True\<rparr>,
       \<lparr>ua = ''Mozilla/5.0 (iPhone; CPU iPhone OS 18_2 like Mac OS X) AppleWebKit/605.1.15 (KHTML, like Gecko) Version/18.2 Mobile/15E148 Safari/604.1'',
         ua_sec_ch_ua = None,
         ua_platform = ''iOS'', ua_mobile = True\<rparr>,
       \<lparr>ua = ''Mozilla/5.0 (iPhone; CPU iPhone OS 17_7 like Mac OS X) AppleWebKit/605.1.15 (KHTML, like Gecko) Version/17.7 Mobile/15E148 Safari/604.1'',
         ua_sec_ch_ua = None,
         ua_platform = ''iOS'', ua_mobile = True\<rparr>,
       \<lparr>ua = ''Mozilla/5.0 (iPhone; CPU iPhone OS 18_3 like Mac OS X) AppleWebKit/605.1.15 (KHTML, like Gecko) CriOS/144.0.6917.56 Mobile/15E148 Safari/604.1'',
         ua_sec_ch_ua = None,
         ua_platform = ''iOS'', ua_mobile = True\<rparr>,
       \<lparr>ua = ''Mozilla/5.0 (iPhone; CPU iPhone OS 18_3 like Mac OS X) AppleWebKit/605.1.15 (KHTML, like Gecko) CriOS/143.0.6917.56 Mobile/15E148 Safari/604.1'',
         ua_sec_ch_ua = None,
         ua_platform = ''iOS'', ua_mobile = True\<rparr>,
       \<lparr>ua = ''Mozilla/5.0 (iPhone; CPU iPhone OS 18_2 like Mac OS X) AppleWebKit/605.1.15 (KHTML, like Gecko) CriOS/142.0.6904.80 Mobile/15E148 Safari/604.1'',
         ua_sec_ch_ua = None,
         ua_platform = ''iOS'', ua_mobile = True\<rparr>,
       \<lparr>ua = ''Mozilla/5.0 (Linux; Android 15; Pixel 9) AppleWebKit/537.36 (KHTML, like Gecko) Chrome/144.0.6917.65 Mobile Safari/537.36'',
         ua_sec_ch_ua = Some ''"Not(A:Brand";v="8", "Chromium";v="144", "Google Chrome";v="144"'',
         ua_platform = ''Android'', ua_mobile = True\<rparr>,
       \<lparr>ua = ''Mozilla/5.0 (Linux; Android 15; Pixel 9) AppleWebKit/537.36 (KHTML, like Gecko) Chrome/143.0.6917.65 Mobile Safari/537.36'',
         ua_sec_ch_ua = Some ''"Chromium";v="143", "Not/A)Brand";v="24", "Google Chrome";v="143"'',
         ua_platform = ''Android'', ua_mobile = True\<rparr>,
       \<lparr>ua = ''Mozilla/5.0 (Linux; Android 14; Pixel 8) AppleWebKit/537.36 (KHTML, like Gecko) Chrome/142.0.6904.111 Mobile Safari/537.36'',
         ua_sec_ch_ua = Some ''"Chromium";v="142", "Not/A)Brand";v="24", "Google Chrome";v="142"'',
         ua_platform = ''Android'', ua_mobile = True\<rparr>,
       \<lparr>ua = ''Mozilla/5.0 (Linux; Android 15; SM-S936B) AppleWebKit/537.36 (KHTML, like Gecko) Chrome/143.0.6917.65 Mobile Safari/537.36'',
         ua_sec_ch_ua = Some ''"Chromium";v="143", "Not/A)Brand";v="24", "Google Chrome";v="143"'',
         ua_platform = ''Android'', ua_mobile = True\<rparr>,
       \<lparr>ua = ''Mozilla/5.0 (Linux; Android 14; SM-S926B) AppleWebKit/537.36 (KHTML, like Gecko) Chrome/142.0.6904.111 Mobile Safari/537.36'',
         ua_sec_ch_ua = Some ''"Chromium";v="142", "Not/A)Brand";v="24", "Google Chrome";v="142"'',
         ua_platform = ''Android'', ua_mobile = True\<rparr>,
       \<lparr>ua = ''Mozilla/5.0 (Linux; Android 15; Pixel 9) AppleWebKit/537.36 (KHTML, like Gecko) Chrome/143.0.6917.65 Mobile Safari/537.36'',
         ua_sec_ch_ua = Some ''"Brave";v="143", "Chromium";v="143", "Not/A)Brand";v="24"'',
         ua_platform = ''Android'', ua_mobile = True\<rparr>
      ]\<close>

text \<open>
  \<^verbatim>\<open>random.choices(population, weights, k=1)[0]\<close>: the weights are accumulated, one
  \<^verbatim>\<open>random()\<close> is scaled by their total, and \<^verbatim>\<open>bisect\<close> over all but the last cumulative
  weight gives the index (the number of cumulative weights not above the scaled draw, the
  weights being positive). ValueError on a length mismatch or a total that is not positive.
\<close>

fun accumulate :: "real \<Rightarrow> real list \<Rightarrow> real list" where
  "accumulate acc [] = []"
| "accumulate acc (w # ws) = (acc + w) # accumulate (acc + w) ws"

definition choices_one :: "nat \<Rightarrow> 'a list \<Rightarrow> real list \<Rightarrow> exn + 'a" where
  "choices_one raw population weights =
     (let n = length population;
          cum_weights = accumulate 0 weights
      in if length cum_weights \<noteq> n then Inl ValueError
         else if cum_weights = [] then Inl IndexError
         else
           let total = last cum_weights
           in if total \<le> 0 then Inl ValueError
              else
                let hi = n - 1;
                    x = random_uniform raw * total
                in Inr (population ! length (takeWhile (\<lambda>c. c \<le> x) (take hi cum_weights))))"

text \<open>Python truthiness of an optional string: not None and not empty.\<close>

definition truthy :: "string option \<Rightarrow> bool" where
  "truthy s = (case s of None \<Rightarrow> False | Some t \<Rightarrow> t \<noteq> [])"

text \<open>\<^verbatim>\<open>p.get("sec_ch_ua") or ""\<close>.\<close>

definition or_empty :: "string option \<Rightarrow> string" where
  "or_empty s = (case s of None \<Rightarrow> [] | Some t \<Rightarrow> t)"

text \<open>\<^verbatim>\<open>platform is None or p["platform"] == platform\<close>.\<close>

definition on_platform :: "string option \<Rightarrow> ua_info \<Rightarrow> bool" where
  "on_platform platform p = (case platform of None \<Rightarrow> True | Some q \<Rightarrow> ua_platform p = q)"

definition get_random :: "nat \<Rightarrow> string option \<Rightarrow> exn + ua_info" where
  "get_random raw platform =
     (if truthy platform then
        let filtered = filter (\<lambda>p. Some (ua_platform p) = platform) PROFILES
        in if filtered \<noteq> [] then choice raw filtered else choice raw PROFILES
      else choice raw PROFILES)"

definition get_weighted_random :: "nat \<Rightarrow> nat \<Rightarrow> exn + ua_info" where
  "get_weighted_random platform_raw raw =
     (let platforms = map fst PLATFORM_WEIGHTS;
          weights = map snd PLATFORM_WEIGHTS
      in and_then (choices_one platform_raw platforms weights)
           (\<lambda>chosen_platform. get_random raw (Some chosen_platform)))"

definition get_chrome :: "nat \<Rightarrow> string option \<Rightarrow> exn + ua_info" where
  "get_chrome raw platform =
     (let chrome_profiles =
            filter (\<lambda>p. (contains (ua p) ''Chrome'' \<or> contains (ua p) ''CriOS'')
                         \<and> \<not> contains (ua p) ''Edg''
                         \<and> \<not> contains (or_empty (ua_sec_ch_ua p)) ''Brave''
                         \<and> on_platform platform p) PROFILES
      in if chrome_profiles \<noteq> [] then choice raw chrome_profiles else get_random raw platform)"

definition get_brave :: "nat \<Rightarrow> string option \<Rightarrow> exn + ua_info" where
  "get_brave raw platform =
     (let brave_profiles =
            filter (\<lambda>p. contains (or_empty (ua_sec_ch_ua p)) ''Brave''
                         \<and> on_platform platform p) PROFILES
      in if brave_profiles \<noteq> [] then choice raw brave_profiles else get_random raw platform)"

definition get_edge :: "nat \<Rightarrow> string option \<Rightarrow> exn + ua_info" where
  "get_edge raw platform =
     (let edge_profiles =
            filter (\<lambda>p. contains (ua p) ''Edg'' \<and> on_platform platform p) PROFILES
      in if edge_profiles \<noteq> [] then choice raw edge_profiles else get_random raw platform)"

definition get_safari :: "nat \<Rightarrow> string option \<Rightarrow> exn + ua_info" where
  "get_safari raw platform =
     (let safari_profiles =
            filter (\<lambda>p. ua_sec_ch_ua p = None
                         \<and> contains (ua p) ''Safari''
                         \<and> on_platform platform p) PROFILES
      in if safari_profiles \<noteq> [] then choice raw safari_profiles else get_random raw platform)"

definition get_version :: "nat \<Rightarrow> int \<Rightarrow> string option \<Rightarrow> exn + ua_info" where
  "get_version raw version platform =
     (let version_profiles =
            filter (\<lambda>p. contains (ua p) (''Chrome/'' @ str_int version)
                         \<and> \<not> contains (ua p) ''Edg''
                         \<and> \<not> contains (or_empty (ua_sec_ch_ua p)) ''Brave''
                         \<and> on_platform platform p) PROFILES
      in if version_profiles \<noteq> [] then choice raw version_profiles else get_random raw platform)"

section \<open>BrowserInfo (config.py)\<close>

record browser_info =
  bi_version :: int
  bi_browser_type :: string
  bi_user_agent :: string
  bi_sec_ch_ua :: "string option"
  bi_sec_ch_ua_mobile :: string
  bi_platform :: string
  bi_mobile :: bool

definition detect_browser_type :: "string \<Rightarrow> string option \<Rightarrow> string" where
  "detect_browser_type agent hint =
     (if truthy hint \<and> contains (or_empty hint) ''Brave'' then ''brave''
      else if truthy hint \<and> (contains (or_empty hint) ''Edge'' \<or> contains agent ''Edg'') then ''edge''
      else if truthy hint \<and> contains (or_empty hint) ''Chrome'' then ''chrome''
      else if contains agent ''Safari'' \<and> \<not> contains agent ''Chrome'' \<and> \<not> contains agent ''Edg''
        then ''safari''
      else if contains agent ''Edg'' then ''edge''
      else ''chrome'')"

text \<open>
  \<^verbatim>\<open>re.search(prefix + r"(\d+)", s)\<close> for a literal prefix: the leftmost place where the
  prefix is followed by a digit; the group is the longest run of digits there.
\<close>

definition is_digit :: "char \<Rightarrow> bool" where
  "is_digit c = (c \<in> set ''0123456789'')"

fun search_number :: "string \<Rightarrow> string \<Rightarrow> string option" where
  "search_number prefix [] = None"
| "search_number prefix (c # s) =
     (let ds = takeWhile is_digit (drop (length prefix) (c # s))
      in if startswith (c # s) prefix \<and> ds \<noteq> [] then Some ds
         else search_number prefix s)"

text \<open>\<^verbatim>\<open>int(digits)\<close> for a string of decimal digits.\<close>

definition int_of_digits :: "string \<Rightarrow> int" where
  "int_of_digits ds = foldl (\<lambda>n c. 10 * n + (int (of_char c) - 48)) 0 ds"

definition extract_version :: "string \<Rightarrow> string \<Rightarrow> int" where
  "extract_version agent browser_type =
     (let patterns = [(''chrome'', ''Chrome/''), (''brave'', ''Chrome/''), (''edge'', ''Edg/''),
                      (''safari'', ''Version/'')];
          pattern = (case map_of patterns browser_type of Some p \<Rightarrow> p | None \<Rightarrow> ''Chrome/'')
      in case search_number pattern agent of
           Some ds \<Rightarrow> int_of_digits ds
         | None \<Rightarrow> 143)"

text \<open>The two draws of an identity: the weighted platform draw and the profile choice.\<close>

record identity_draws =
  platform_raw :: nat
  profile_raw :: nat

definition select_ua :: "identity_draws \<Rightarrow> string option \<Rightarrow> string option \<Rightarrow> int option \<Rightarrow> exn + ua_info" where
  "select_ua d platform browser version =
     (case (version, browser) of
        (Some v, Some b) \<Rightarrow>
          if b = ''chrome'' then get_version (profile_raw d) v platform
          else if b = ''brave'' then get_brave (profile_raw d) platform
          else if b = ''edge'' then get_edge (profile_raw d) platform
          else if b = ''safari'' then get_safari (profile_raw d) platform
          else get_random (profile_raw d) platform
      | (None, Some b) \<Rightarrow>
          if b = ''chrome'' then get_chrome (profile_raw d) platform
          else if b = ''brave'' then get_brave (profile_raw d) platform
          else if b = ''edge'' then get_edge (profile_raw d) platform
          else if b = ''safari'' then get_safari (profile_raw d) platform
          else get_random (profile_raw d) platform
      | (_, None) \<Rightarrow>
          (case platform of
             Some p \<Rightarrow> get_random (profile_raw d) platform
           | None \<Rightarrow> get_weighted_random (platform_raw d) (profile_raw d)))"

text \<open>\<^verbatim>\<open>BrowserInfo.generate(platform, browser, version)\<close>.\<close>

definition browser_info_generate :: "identity_draws \<Rightarrow> string option \<Rightarrow> string option \<Rightarrow> int option \<Rightarrow> exn + browser_info" where
  "browser_info_generate d platform browser version =
     and_then (select_ua d platform browser version) (\<lambda>info.
       let browser_type = detect_browser_type (ua info) (ua_sec_ch_ua info);
           version_num = extract_version (ua info) browser_type
       in Inr \<lparr>bi_version = version_num,
               bi_browser_type = browser_type,
               bi_user_agent = ua info,
               bi_sec_ch_ua = ua_sec_ch_ua info,
               bi_sec_ch_ua_mobile = (if ua_mobile info then ''?1'' else ''?0''),
               bi_platform = ua_platform info,
               bi_mobile = ua_mobile info\<rparr>)"

section \<open>The extra options and the profile (fingerprint/ja3.py, fingerprint/profile.py)\<close>

definition CHROME_SIGNATURE_ALGORITHMS :: "string list" where
  "CHROME_SIGNATURE_ALGORITHMS =
     [''ecdsa_secp256r1_sha256'', ''rsa_pss_rsae_sha256'', ''rsa_pkcs1_sha256'',
      ''ecdsa_secp384r1_sha384'', ''rsa_pss_rsae_sha384'', ''rsa_pkcs1_sha384'',
      ''rsa_pss_rsae_sha512'', ''rsa_pkcs1_sha512'']"

text \<open>The three entries of the table hold the same list.\<close>

definition SIGNATURE_ALGORITHMS :: "(string \<times> string list) list" where
  "SIGNATURE_ALGORITHMS =
     [(''chrome'', CHROME_SIGNATURE_ALGORITHMS), (''brave'', CHROME_SIGNATURE_ALGORITHMS),
      (''edge'', CHROME_SIGNATURE_ALGORITHMS)]"

record extra_options =
  tls_signature_algorithms :: "string list"
  tls_grease :: bool
  tls_permute_extensions :: bool
  tls_cert_compression :: string
  http2_stream_weight :: int
  http2_stream_exclusive :: int

definition get_extra_fp :: "nat \<Rightarrow> string \<Rightarrow> exn + extra_options" where
  "get_extra_fp raw browser_type =
     (let sig_algs = (case map_of SIGNATURE_ALGORITHMS browser_type of
                        Some algs \<Rightarrow> algs
                      | None \<Rightarrow> CHROME_SIGNATURE_ALGORITHMS)
      in and_then (choice raw [220, 230, 240, 250, 256]) (\<lambda>stream_weight.
           Inr \<lparr>tls_signature_algorithms = sig_algs,
                 tls_grease = True,
                 tls_permute_extensions = False,
                 tls_cert_compression = ''brotli'',
                 http2_stream_weight = stream_weight,
                 http2_stream_exclusive = 1\<rparr>))"

record fingerprint_profile =
  ja3 :: string
  akamai :: string
  extra_fp :: extra_options
  user_agent :: string
  sec_ch_ua :: "string option"
  sec_ch_ua_mobile :: "string option"
  sec_ch_ua_platform :: "string option"
  accept_language :: "string option"
  browser_type :: string
  platform :: string
  mobile :: bool

section \<open>SessionManager (session.py)\<close>

text \<open>A decoded JSON document. Numbers are kept as integers.\<close>

datatype json =
    JNull
  | JBool bool
  | JNumber int
  | JString string
  | JArray "json list"
  | JObject "(string \<times> json) list"

text \<open>
  A file on disk, as \<^verbatim>\<open>json.load\<close> sees it: text the decoder rejects, or the document
  it decodes to. The decoder is Python's; it raises JSONDecodeError on the former.
\<close>

datatype file_content = Malformed | Document json

type_synonym file_system = "string \<Rightarrow> file_content option"

definition json_load :: "file_content \<Rightarrow> exn + json" where
  "json_load f = (case f of Malformed \<Rightarrow> Inl JSONDecodeError | Document j \<Rightarrow> Inr j)"

text \<open>
  The transport's session, as far as this code touches it: the fingerprint it was built
  with, the cookie jar and the default headers. The jar keeps one cookie per domain, path
  and name; \<^verbatim>\<open>cookies.set\<close> stores or replaces it.
\<close>

record cookie =
  cookie_name :: json
  cookie_content :: json
  cookie_domain :: json
  cookie_path :: json
  cookie_secure :: json

record session =
  session_ja3 :: string
  session_akamai :: string
  session_extra_fp :: extra_options
  cookies :: "cookie list"
  headers :: "(string \<times> json) list"

definition new_session :: "string \<Rightarrow> string \<Rightarrow> extra_options \<Rightarrow> session" where
  "new_session j a x =
     \<lparr>session_ja3 = j, session_akamai = a, session_extra_fp = x, cookies = [], headers = []\<rparr>"

definition same_cookie :: "cookie \<Rightarrow> cookie \<Rightarrow> bool" where
  "same_cookie c d =
     (cookie_name c = cookie_name d \<and> cookie_domain c = cookie_domain d
      \<and> cookie_path c = cookie_path d)"

definition cookies_set :: "cookie \<Rightarrow> session \<Rightarrow> session" where
  "cookies_set c s = s\<lparr>cookies := filter (\<lambda>d. \<not> same_cookie c d) (cookies s) @ [c]\<rparr>"

text \<open>\<^verbatim>\<open>d[key]\<close> and \<^verbatim>\<open>d.get(key, default)\<close> on a decoded value, for a string key.\<close>

definition subscript :: "json \<Rightarrow> string \<Rightarrow> exn + json" where
  "subscript d k =
     (case d of
        JObject kvs \<Rightarrow> (case map_of kvs k of Some v \<Rightarrow> Inr v | None \<Rightarrow> Inl (KeyError k))
      | _ \<Rightarrow> Inl TypeError)"

definition get_or :: "json \<Rightarrow> string \<Rightarrow> json \<Rightarrow> exn + json" where
  "get_or d k dflt =
     (case d of
        JObject kvs \<Rightarrow> (case map_of kvs k of Some v \<Rightarrow> Inr v | None \<Rightarrow> Inr dflt)
      | _ \<Rightarrow> Inl AttributeError)"

text \<open>
  The outcome of a method that returns nothing: the exception it raised, if any, and the
  session as it is then.
\<close>

type_synonym outcome = "exn option \<times> session"




text \<open>The body of the cookie loop in \<^verbatim>\<open>import_session\<close>.\<close>

definition import_cookie :: "json \<Rightarrow> session \<Rightarrow> exn + session" where
  "import_cookie cookie_data s =
     and_then (subscript cookie_data ''name'') (\<lambda>n.
     and_then (subscript cookie_data ''value'') (\<lambda>v.
     and_then (get_or cookie_data ''domain'' (JString '''')) (\<lambda>d.
     and_then (get_or cookie_data ''path'' (JString ''/'')) (\<lambda>p.
     and_then (get_or cookie_data ''secure'' (JBool False)) (\<lambda>sec.
       Inr (cookies_set \<lparr>cookie_name = n, cookie_content = v, cookie_domain = d,
                          cookie_path = p, cookie_secure = sec\<rparr> s))))))"

fun import_cookie_items :: "json list \<Rightarrow> session \<Rightarrow> outcome" where
  "import_cookie_items [] s = (None, s)"
| "import_cookie_items (cookie_data # rest) s =
     (case import_cookie cookie_data s of
        Inl e \<Rightarrow> (Some e, s)
      | Inr s' \<Rightarrow> import_cookie_items rest s')"

text \<open>
  What a \<^verbatim>\<open>for\<close> loop iterates over: the elements of a list, the keys of a dictionary, the
  characters of a string; TypeError on anything else.
\<close>

definition iterate :: "json \<Rightarrow> exn + json list" where
  "iterate j =
     (case j of
        JArray xs \<Rightarrow> Inr xs
      | JObject kvs \<Rightarrow> Inr (map (\<lambda>kv. JString (fst kv)) kvs)
      | JString cs \<Rightarrow> Inr (map (\<lambda>c. JString [c]) cs)
      | _ \<Rightarrow> Inl TypeError)"

definition import_headers :: "(string \<times> json) list \<Rightarrow> session \<Rightarrow> session" where
  "import_headers items s =
     foldl (\<lambda>t kv. t\<lparr>headers := AList.update (fst kv) (snd kv) (headers t)\<rparr>) s items"

definition import_session :: "file_system \<Rightarrow> session \<Rightarrow> string \<Rightarrow> outcome" where
  "import_session fs s path =
     (case fs path of
        None \<Rightarrow> (None, s)
      | Some f \<Rightarrow>
          (case json_load f of
             Inl e \<Rightarrow> (Some e, s)
           | Inr session_data \<Rightarrow>
               (case and_then (get_or session_data ''cookies'' (JArray [])) iterate of
                  Inl e \<Rightarrow> (Some e, s)
                | Inr cookie_items \<Rightarrow>
                    (case import_cookie_items cookie_items s of
                       (Some e, s') \<Rightarrow> (Some e, s')
                     | (None, s') \<Rightarrow>
                         (case get_or session_data ''headers'' (JObject []) of
                            Inl e \<Rightarrow> (Some e, s')
                          | Inr (JObject items) \<Rightarrow> (None, import_headers items s')
                          | Inr _ \<Rightarrow> (Some AttributeError, s'))))))"

subsection \<open>Concrete files\<close>



definition some_session :: session where
  "some_session =
     \<lparr>session_ja3 = '''', session_akamai = '''',
      session_extra_fp =
        \<lparr>tls_signature_algorithms = [], tls_grease = True, tls_permute_extensions = False,
         tls_cert_compression = ''brotli'', http2_stream_weight = 256, http2_stream_exclusive = 1\<rparr>,
      cookies =
        [\<lparr>cookie_name = JString ''sid'', cookie_content = JString ''42'', cookie_domain = JString '''',
          cookie_path = JString ''/'', cookie_secure = JBool False\<rparr>],
      headers = [(''x-token'', JString ''t'')]\<rparr>"

text \<open>A session file whose second cookie entry is a number.\<close>

definition half_good_disk :: file_system where
  "half_good_disk path =
     (if path = ''session.json''
      then Some (Document (JObject
             [(''cookies'',
               JArray [JObject [(''name'', JString ''a''), (''value'', JString ''1'')], JNumber 5])]))
      else None)"

section \<open>HTTPClient (client.py)\<close>

text \<open>All the draws behind one profile, in the order the generators make them.\<close>

record profile_draws =
  identity :: identity_draws
  shuffle_raw :: "nat \<Rightarrow> nat"
  akamai_raw :: akamai_draws
  stream_weight_raw :: nat

text \<open>
  \<^verbatim>\<open>_generate_profile\<close> after its first statement: the profile built from one
  \<^verbatim>\<open>BrowserInfo\<close>. Both generators and \<^verbatim>\<open>get_extra_fp\<close> get \<^verbatim>\<open>browser_info.browser_type\<close>.
\<close>

definition assemble_profile :: "profile_draws \<Rightarrow> browser_info \<Rightarrow> exn + fingerprint_profile" where
  \<open>assemble_profile d browser_info =
     (let j = ja3_generate (shuffle_raw d) (bi_version browser_info) (bi_browser_type browser_info)
      in and_then (akamai_generate (akamai_raw d) (bi_browser_type browser_info)) (\<lambda>a.
         and_then (get_extra_fp (stream_weight_raw d) (bi_browser_type browser_info)) (\<lambda>x.
           Inr \<lparr>ja3 = j,
                 akamai = a,
                 extra_fp = x,
                 user_agent = bi_user_agent browser_info,
                 sec_ch_ua = bi_sec_ch_ua browser_info,
                 sec_ch_ua_mobile = Some (bi_sec_ch_ua_mobile browser_info),
                 sec_ch_ua_platform = Some (''"'' @ bi_platform browser_info @ ''"''),
                 accept_language = None,
                 browser_type = bi_browser_type browser_info,
                 platform = bi_platform browser_info,
                 mobile = bi_mobile browser_info\<rparr>)))\<close>

definition generate_profile :: "profile_draws \<Rightarrow> string option \<Rightarrow> string option \<Rightarrow> int option \<Rightarrow> exn + fingerprint_profile" where
  "generate_profile d forced_platform forced_browser forced_version =
     and_then (browser_info_generate (identity d) forced_platform forced_browser forced_version)
       (assemble_profile d)"

text \<open>
  The client's state. \<open>cached_profile\<close> is \<^verbatim>\<open>self._profile\<close>; the constructor arguments
  \<^verbatim>\<open>platform\<close>, \<^verbatim>\<open>browser\<close> and \<^verbatim>\<open>browser_version\<close> are the three \<open>forced\<close> fields. The proxy
  settings play no part below and are left out.
\<close>

record http_client =
  timeout :: int
  randomize_per_request :: bool
  forced_platform :: "string option"
  forced_browser :: "string option"
  forced_browser_version :: "int option"
  cached_profile :: "fingerprint_profile option"
  request_count :: int
  client_session :: session
  retry_cfg :: retry_config

text \<open>\<^verbatim>\<open>__init__\<close>: the first read of \<^verbatim>\<open>self.profile\<close> generates the profile.\<close>

definition http_client_init :: "profile_draws \<Rightarrow> int \<Rightarrow> bool \<Rightarrow> string option \<Rightarrow> string option \<Rightarrow> int option \<Rightarrow> retry_config option \<Rightarrow> exn + http_client" where
  "http_client_init d tmo randomize_each plat browser version retry =
     and_then (generate_profile d plat browser version) (\<lambda>p.
       Inr \<lparr>timeout = tmo,
             randomize_per_request = randomize_each,
             forced_platform = plat,
             forced_browser = browser,
             forced_browser_version = version,
             cached_profile = Some p,
             request_count = 0,
             client_session = new_session (ja3 p) (akamai p) (extra_fp p),
             retry_cfg = (case retry of Some r \<Rightarrow> r | None \<Rightarrow> default_retry_config)\<rparr>)"

text \<open>The property \<^verbatim>\<open>profile\<close>: the cached profile, generated on the first read.\<close>

definition profile_of :: "profile_draws \<Rightarrow> http_client \<Rightarrow> exn + fingerprint_profile \<times> http_client" where
  "profile_of d c =
     (case cached_profile c of
        Some p \<Rightarrow> Inr (p, c)
      | None \<Rightarrow>
          and_then (generate_profile d (forced_platform c) (forced_browser c) (forced_browser_version c))
            (\<lambda>p. Inr (p, c\<lparr>cached_profile := Some p\<rparr>)))"

definition randomize :: "profile_draws \<Rightarrow> http_client \<Rightarrow> exn + fingerprint_profile \<times> http_client" where
  "randomize d c =
     and_then (generate_profile d (forced_platform c) (forced_browser c) (forced_browser_version c))
       (\<lambda>p. Inr (p, c\<lparr>cached_profile := Some p,
                         client_session := new_session (ja3 p) (akamai p) (extra_fp p)\<rparr>))"

text \<open>
  A Python dictionary keeps its keys in insertion order: \<^verbatim>\<open>d[k] = v\<close> replaces the value of
  a key in place or appends the key; \<^verbatim>\<open>d.update(e)\<close> does so for every item of \<open>e\<close>.
\<close>

definition set_item :: "string \<Rightarrow> 'v \<Rightarrow> (string \<times> 'v) list \<Rightarrow> (string \<times> 'v) list" where
  "set_item k v d = AList.update k v d"

definition dict_update :: "(string \<times> 'v) list \<Rightarrow> (string \<times> 'v) list \<Rightarrow> (string \<times> 'v) list" where
  "dict_update d e = foldl (\<lambda>acc kv. set_item (fst kv) (snd kv) acc) d e"

definition NAVIGATE_ACCEPT :: string where
  "NAVIGATE_ACCEPT =
     ''text/html,application/xhtml+xml,application/xml;q=0.9,''
     @ ''image/avif,image/webp,image/apng,*/*;q=0.8,''
     @ ''application/signed-exchange;v=b3;q=0.7''"

text \<open>
  \<^verbatim>\<open>_get_headers(extra_headers, request_type)\<close>: the composed header set and the client
  with its counter advanced.
\<close>

definition get_headers :: "profile_draws \<Rightarrow> http_client \<Rightarrow> (string \<times> string) list option \<Rightarrow> string \<Rightarrow> exn + (string \<times> string) list \<times> http_client" where
  \<open>get_headers d c0 extra_headers request_type =
     and_then (profile_of d c0) (\<lambda>(p, c).
       let is_navigate = (request_type = ''navigate'');
           is_brave = (browser_type p = ''brave'');
           is_first_request = (request_count c = 0);
           hs = [];
           hs = set_item ''accept'' (if is_navigate then NAVIGATE_ACCEPT else ''*/*'') hs;
           hs = set_item ''accept-language'' ''en-US,en;q=0.9'' hs;
           hs = set_item ''accept-encoding'' ''gzip, deflate, br, zstd'' hs;
           hs = set_item ''cache-control'' (if is_first_request then ''no-cache'' else ''max-age=0'') hs;
           hs = set_item ''pragma'' ''no-cache'' hs;
           hs = (if is_brave then set_item ''sec-gpc'' ''1'' (set_item ''dnt'' ''1'' hs) else hs);
           hs = set_item ''priority'' (if is_navigate then ''u=0, i'' else ''u=1, i'') hs;
           hs = (if truthy (sec_ch_ua p)
                 then set_item ''sec-ch-ua-platform'' (''"'' @ platform p @ ''"'')
                        (set_item ''sec-ch-ua-mobile'' (if mobile p then ''?1'' else ''?0'')
                           (set_item ''sec-ch-ua'' (or_empty (sec_ch_ua p)) hs))
                 else hs);
           hs = (if is_navigate
                 then set_item ''sec-fetch-user'' ''?1''
                        (set_item ''sec-fetch-site'' ''none''
                           (set_item ''sec-fetch-mode'' ''navigate''
                              (set_item ''sec-fetch-dest'' ''document'' hs)))
                 else set_item ''sec-fetch-site'' ''same-site''
                        (set_item ''sec-fetch-mode'' ''cors''
                           (set_item ''sec-fetch-dest'' ''empty'' hs)));
           hs = (if is_navigate then set_item ''upgrade-insecure-requests'' ''1'' hs else hs);
           hs = set_item ''user-agent'' (user_agent p) hs;
           hs = (case extra_headers of
                   Some e \<Rightarrow> if e \<noteq> [] then dict_update hs e else hs
                 | None \<Rightarrow> hs)
       in Inr (hs, c\<lparr>request_count := request_count c + 1\<rparr>))\<close>

text \<open>
  \<^verbatim>\<open>_make_request\<close> up to the call of the transport: the optional regeneration of the
  profile (draws \<open>d\<close>), then the request headers (draws \<open>d'\<close>, read only if no profile is
  cached).
\<close>

definition request_headers :: "profile_draws \<Rightarrow> profile_draws \<Rightarrow> http_client \<Rightarrow> (string \<times> string) list option \<Rightarrow> bool \<Rightarrow> string \<Rightarrow> exn + (string \<times> string) list \<times> http_client" where
  "request_headers d d' c0 hdrs raw_headers request_type =
     and_then (if randomize_per_request c0
               then and_then (randomize d c0) (\<lambda>(p, c). Inr c)
               else Inr c0) (\<lambda>c.
       case hdrs of
         Some h \<Rightarrow> if raw_headers \<and> h \<noteq> [] then Inr (h, c)
                   else get_headers d' c hdrs request_type
       | None \<Rightarrow> get_headers d' c hdrs request_type)"

text \<open>The value of a header in a composed set.\<close>

definition header :: "(string \<times> string) list \<Rightarrow> string \<Rightarrow> string option" where
  "header hs k = map_of hs k"

subsection \<open>Concrete clients and requests\<close>

definition some_draws :: profile_draws where
  "some_draws =
     \<lparr>identity = \<lparr>platform_raw = 0, profile_raw = 1\<rparr>, shuffle_raw = draws_zero,
      akamai_raw = akamai_draws_a, stream_weight_raw = 2\<rparr>"

definition other_draws :: profile_draws where
  "other_draws =
     \<lparr>identity = \<lparr>platform_raw = 0, profile_raw = 3\<rparr>, shuffle_raw = draws_self,
      akamai_raw = akamai_draws_b, stream_weight_raw = 0\<rparr>"

definition cache_override :: "(string \<times> string) list" where
  "cache_override = [(''cache-control'', ''no-store'')]"

definition accept_override :: "(string \<times> string) list" where
  "accept_override = [(''accept'', ''application/json'')]"

section \<open>Sequences of calls on one client\<close>

text \<open>
  Whether the caller's overrides set a header themselves (\<^verbatim>\<open>headers.update\<close> lets them win).
\<close>

definition sets_key :: "(string \<times> string) list option \<Rightarrow> string \<Rightarrow> bool" where
  "sets_key extra k = (case extra of None \<Rightarrow> False | Some e \<Rightarrow> k \<in> fst ` set e)"

text \<open>
  Header sets composed one after the other on the same client, each request given by its
  overrides and its request type.
\<close>

fun compose_all :: "profile_draws \<Rightarrow> http_client \<Rightarrow> ((string \<times> string) list option \<times> string) list \<Rightarrow> exn + (string \<times> string) list list \<times> http_client" where
  "compose_all d c [] = Inr ([], c)"
| "compose_all d c (r # rest) =
     and_then (get_headers d c (fst r) (snd r)) (\<lambda>(hs, c').
     and_then (compose_all d c' rest) (\<lambda>(hss, c'').
       Inr (hs # hss, c'')))"

definition cache_controls :: "profile_draws \<Rightarrow> http_client \<Rightarrow> ((string \<times> string) list option \<times> string) list \<Rightarrow> exn + string option list" where
  "cache_controls d c reqs =
     and_then (compose_all d c reqs) (\<lambda>(hss, c').
       Inr (map (\<lambda>hs. header hs ''cache-control'') hss))"

text \<open>
  One navigation, then a regeneration of the profile, then a second composition with the
  given overrides: the \<^verbatim>\<open>cache-control\<close> of that second header set.
\<close>

definition cache_control_after_regeneration :: "profile_draws \<Rightarrow> http_client \<Rightarrow> (string \<times> string) list option \<Rightarrow> exn + string option" where
  "cache_control_after_regeneration d c extra =
     and_then (get_headers d c None ''navigate'') (\<lambda>(h1, c1).
     and_then (randomize d c1) (\<lambda>(p, c2).
     and_then (get_headers d c2 extra ''navigate'') (\<lambda>(h3, c3).
       Inr (header h3 ''cache-control''))))"

text \<open>
  The client \<^verbatim>\<open>HTTPClient(platform="Windows", browser="brave")\<close> under the draws
  \<open>some_draws\<close>.
\<close>

definition brave_profile :: fingerprint_profile where
  \<open>brave_profile =
     \<lparr>ja3 = ''771,4865-4866-4867-49195-49199-49196-49200-52393-52392-49171-49172-156-157-47-53,5-10-11-13-16-18-23-27-35-43-45-51-65037-65281-17613-0,4588-29-23-24,0'',
      akamai = ''1:65536;2:0;3:500;4:6291456;6:262144|15859710|3|m,p,a,s'',
      extra_fp =
        \<lparr>tls_signature_algorithms = CHROME_SIGNATURE_ALGORITHMS,
         tls_grease = True, tls_permute_extensions = False,
         tls_cert_compression = ''brotli'',
         http2_stream_weight = 240, http2_stream_exclusive = 1\<rparr>,
      user_agent = ''Mozilla/5.0 (Windows NT 10.0; Win64; x64) AppleWebKit/537.36 (KHTML, like Gecko) Chrome/142.0.0.0 Safari/537.36'',
      sec_ch_ua = Some ''"Brave";v="142", "Chromium";v="142", "Not/A)Brand";v="24"'',
      sec_ch_ua_mobile = Some ''?0'',
      sec_ch_ua_platform = Some ''"Windows"'',
      accept_language = None,
      browser_type = ''brave'',
      platform = ''Windows'',
      mobile = False\<rparr>\<close>

definition brave_client :: http_client where
  "brave_client =
     \<lparr>timeout = 30,
      randomize_per_request = False,
      forced_platform = Some ''Windows'',
      forced_browser = Some ''brave'',
      forced_browser_version = None,
      cached_profile = Some brave_profile,
      request_count = 0,
      client_session = new_session (ja3 brave_profile) (akamai brave_profile) (extra_fp brave_profile),
      retry_cfg = default_retry_config\<rparr>"

definition no_cache_override :: "(string \<times> string) list" where
  "no_cache_override = [(''cache-control'', ''no-cache'')]"

section \<open>Lemmas on strings and shuffling\<close>

lemma split_on_not_Nil: "split_on c s \<noteq> []"
  by (induction s) (auto split: list.splits)

lemma split_on_no_sep: "c \<notin> set w \<Longrightarrow> split_on c w = [w]"
  by (induction w) auto

lemma split_on_append_sep:
  "c \<notin> set w \<Longrightarrow> split_on c (w @ c # rest) = w # split_on c rest"
  by (induction w) auto

lemma split_on_join:
  assumes "xs \<noteq> []" and "\<And>x. x \<in> set xs \<Longrightarrow> c \<notin> set x"
  shows "split_on c (join [c] xs) = xs"
  using assms
proof (induction "[c]" xs rule: join.induct)
  case 1
  then show ?case by simp
next
  case (2 x)
  then show ?case by (simp add: split_on_no_sep)
next
  case (3 x y ys)
  have "c \<notin> set x" using 3 by simp
  moreover have "split_on c (join [c] (y # ys)) = y # ys" using 3 by simp
  ultimately show ?case by (simp add: split_on_append_sep)
qed

lemma set_join: "set (join sep xs) \<subseteq> set sep \<union> \<Union> (set ` set xs)"
  by (induction sep xs rule: join.induct) auto

lemma length_shuffle_loop: "length (shuffle_loop rnd k x) = length x"
  by (induction k arbitrary: x) (simp_all add: Let_def)

lemma mset_shuffle_loop: "k < length x \<Longrightarrow> mset (shuffle_loop rnd k x) = mset x"
proof (induction k arbitrary: x)
  case 0
  then show ?case by simp
next
  case (Suc k)
  let ?j = "randbelow (rnd (Suc k)) (Suc k + 1)"
  let ?y = "x[Suc k := x ! ?j, ?j := x ! Suc k]"
  have "?j < Suc (Suc k)"
    by (simp add: randbelow_def)
  with Suc.prems have j: "?j < length x"
    by linarith
  have "mset ?y = mset x"
    using mset_swap [OF j Suc.prems] .
  moreover have "mset (shuffle_loop rnd k ?y) = mset ?y"
    using Suc.prems by (intro Suc.IH) simp
  ultimately show ?case by (simp add: Let_def)
qed

lemma mset_shuffle: "mset (shuffle rnd x) = mset x"
proof (cases x)
  case Nil
  then show ?thesis by (simp add: shuffle_def)
next
  case (Cons a as)
  then show ?thesis by (simp add: shuffle_def mset_shuffle_loop)
qed

lemma set_shuffle: "set (shuffle rnd x) = set x"
  using mset_shuffle [of rnd x] by (metis set_mset_mset)

lemma choice_nonempty: "xs \<noteq> [] \<Longrightarrow> choice raw xs = Inr (xs ! randbelow raw (length xs))"
  by (cases xs) simp_all

lemma choice_in_set: "choice raw xs = Inr x \<Longrightarrow> x \<in> set xs"
proof (cases xs)
  case Nil
  assume "choice raw xs = Inr x"
  with Nil show ?thesis by simp
next
  case (Cons a as)
  assume c: "choice raw xs = Inr x"
  have "randbelow raw (length xs) < length xs"
    using Cons by (simp add: randbelow_def)
  moreover have "x = xs ! randbelow raw (length xs)"
    using c Cons by simp
  ultimately show ?thesis by simp
qed

section \<open>Rounding to a float\<close>

lemma round_half_even_of_int [simp]: "round_half_even (of_int n) = n"
  by (simp add: round_half_even_def)

lemma round_half_even_bounds: "\<lfloor>q\<rfloor> \<le> round_half_even q" "round_half_even q \<le> \<lfloor>q\<rfloor> + 1"
  by (simp_all add: round_half_even_def Let_def)

lemma round_half_even_mono:
  assumes "q \<le> q'"
  shows "round_half_even q \<le> round_half_even q'"
proof (cases "\<lfloor>q\<rfloor> < \<lfloor>q'\<rfloor>")
  case True
  have "round_half_even q \<le> \<lfloor>q\<rfloor> + 1" by (rule round_half_even_bounds)
  also have "\<dots> \<le> \<lfloor>q'\<rfloor>" using True by simp
  also have "\<dots> \<le> round_half_even q'" by (rule round_half_even_bounds)
  finally show ?thesis .
next
  case False
  moreover have "\<lfloor>q\<rfloor> \<le> \<lfloor>q'\<rfloor>" using assms by (rule floor_mono)
  ultimately have e: "\<lfloor>q'\<rfloor> = \<lfloor>q\<rfloor>" by simp
  then have "q - of_int \<lfloor>q\<rfloor> \<le> q' - of_int \<lfloor>q'\<rfloor>" using assms by simp
  then show ?thesis
    unfolding round_half_even_def Let_def e by auto
qed

lemma two_powi_pos [simp]: "0 < (2::real) powi k"
  by simp

lemma ulp_pos [simp]: "0 < ulp x"
  by (simp add: ulp_def)

lemma float_exponent_ge: "- 1022 \<le> float_exponent x"
  by (simp add: float_exponent_def)

lemma abs_less_next_binade:
  assumes "x \<noteq> 0"
  shows "\<bar>x\<bar> < 2 powi (float_exponent x + 1)"
proof -
  let ?k = "\<lfloor>log 2 \<bar>x\<bar>\<rfloor>"
  have p: "0 < \<bar>x\<bar>" using assms by simp
  have "\<bar>x\<bar> < 2 powr (real_of_int ?k + 1)"
    using floor_log_eq_powr_iff [of "\<bar>x\<bar>" 2 ?k] p by simp
  also have "\<dots> = 2 powi (?k + 1)"
    using powr_real_of_int' [of 2 "?k + 1"] by simp
  also have "\<dots> \<le> 2 powi (float_exponent x + 1)"
    by (intro power_int_increasing) (simp_all add: float_exponent_def)
  finally show ?thesis .
qed

lemma binade_le_abs:
  assumes "x \<noteq> 0" and "- 1022 < float_exponent x"
  shows "2 powi (float_exponent x) \<le> \<bar>x\<bar>"
proof -
  let ?k = "\<lfloor>log 2 \<bar>x\<bar>\<rfloor>"
  have p: "0 < \<bar>x\<bar>" using assms by simp
  have k: "float_exponent x = ?k" using assms(2) by (simp add: float_exponent_def max_def split: if_splits)
  have "2 powr (real_of_int ?k) \<le> \<bar>x\<bar>"
    using floor_log_eq_powr_iff [of "\<bar>x\<bar>" 2 ?k] p by simp
  moreover have "2 powr (real_of_int ?k) = 2 powi ?k"
    using powr_real_of_int' [of 2 ?k] by simp
  ultimately show ?thesis using k by simp
qed

lemma float_exponent_mono:
  assumes "0 < x" and "x \<le> y"
  shows "float_exponent x \<le> float_exponent y"
proof -
  have "log 2 \<bar>x\<bar> \<le> log 2 \<bar>y\<bar>" using assms by simp
  then have "\<lfloor>log 2 \<bar>x\<bar>\<rfloor> \<le> \<lfloor>log 2 \<bar>y\<bar>\<rfloor>" by (rule floor_mono)
  then show ?thesis by (simp add: float_exponent_def)
qed

text \<open>
  Rounding leaves an integer below \<open>2^53\<close> times a power of two from \<open>2^-1074\<close> on as it
  is: these are the floats (with an exponent range open above).
\<close>

lemma round_double_exact:
  assumes x: "x = of_int m * 2 powi e" and m: "\<bar>m\<bar> < 2 ^ 53" and e: "- 1074 \<le> e"
  shows "round_double x = x"
proof (cases "x = 0")
  case True
  then show ?thesis by (simp add: round_double_def)
next
  case False
  let ?E = "float_exponent x"
  have le: "?E - 52 \<le> e"
  proof (cases "- 1022 < ?E")
    case True
    have "2 powi ?E \<le> \<bar>x\<bar>" using False True by (rule binade_le_abs)
    also have "\<bar>x\<bar> = \<bar>of_int m\<bar> * 2 powi e" by (simp add: x abs_mult)
    also have "\<dots> < 2 ^ 53 * 2 powi e"
    proof -
      have "\<bar>real_of_int m\<bar> < 2 ^ 53" using m by (metis of_int_abs of_int_less_numeral_power_cancel_iff)
      then show ?thesis by (intro mult_strict_right_mono) simp_all
    qed
    also have "\<dots> = 2 powi (53 + e)" by (simp add: power_int_add)
    finally have "2 powi ?E < (2::real) powi (53 + e)" .
    then have "?E < 53 + e"
      by (metis power_int_increasing linorder_not_le one_le_numeral)
    then show ?thesis by simp
  next
    case False
    then have "?E = - 1022" using float_exponent_ge [of x] by simp
    then show ?thesis using e by simp
  qed
  define j where "j = nat (e - (?E - 52))"
  define u where "u = ulp x"
  have up: "0 < u" by (simp add: u_def)
  have j: "e = (?E - 52) + int j" using le by (simp add: j_def)
  have "2 powi e = u * 2 ^ j"
    unfolding u_def ulp_def by (subst j) (simp add: power_int_add)
  then have xu: "x = of_int (m * 2 ^ j) * u"
    using x by simp
  then have "x / u = of_int (m * 2 ^ j)"
    using up by simp
  then have "round_half_even (x / u) = m * 2 ^ j"
    by (simp only: round_half_even_of_int)
  then have "round_double x = of_int (m * 2 ^ j) * u"
    using \<open>x \<noteq> 0\<close> by (simp add: round_double_def u_def)
  then show ?thesis using xu by simp
qed

lemma ulp_nonneg [simp]: "0 \<le> ulp x"
  using ulp_pos [of x] by (rule less_imp_le)

lemma ulp_times_2_53: "2 ^ 53 * ulp x = 2 powi (float_exponent x + 1)"
proof -
  have "(2::real) powi ((float_exponent x - 52) + 53) = 2 powi (float_exponent x - 52) * 2 powi 53"
    by (rule power_int_add) simp
  moreover have "(float_exponent x - 52) + 53 = float_exponent x + 1" by simp
  moreover have "(2::real) powi 53 = 2 ^ 53" by (rule power_int_numeral)
  ultimately show ?thesis by (simp only: ulp_def mult.commute)
qed

lemma ulp_times_2_52: "2 ^ 52 * ulp x = 2 powi (float_exponent x)"
proof -
  have "(2::real) powi ((float_exponent x - 52) + 52) = 2 powi (float_exponent x - 52) * 2 powi 52"
    by (rule power_int_add) simp
  moreover have "(float_exponent x - 52) + 52 = float_exponent x" by simp
  moreover have "(2::real) powi 52 = 2 ^ 52" by (rule power_int_numeral)
  ultimately show ?thesis by (simp only: ulp_def mult.commute)
qed

lemma round_double_zero [simp]: "round_double 0 = 0"
  by (simp add: round_double_def)

lemma round_double_le_next_binade:
  assumes "0 < x"
  shows "round_double x \<le> 2 powi (float_exponent x + 1)"
proof -
  have "x < 2 powi (float_exponent x + 1)"
    using abs_less_next_binade [of x] assms by simp
  then have "x < 2 ^ 53 * ulp x" by (simp only: ulp_times_2_53)
  then have "x / ulp x < 2 ^ 53"
    using ulp_pos [of x] by (simp only: pos_divide_less_eq)
  then have "x / ulp x \<le> of_int (2 ^ 53)"
    by simp
  then have "round_half_even (x / ulp x) \<le> round_half_even (of_int (2 ^ 53))"
    by (rule round_half_even_mono)
  then have "round_half_even (x / ulp x) \<le> 2 ^ 53"
    by (simp only: round_half_even_of_int)
  then have "real_of_int (round_half_even (x / ulp x)) \<le> 2 ^ 53"
    by (metis of_int_le_numeral_power_cancel_iff)
  then have "real_of_int (round_half_even (x / ulp x)) * ulp x \<le> 2 ^ 53 * ulp x"
    by (intro mult_right_mono) simp_all
  then have "real_of_int (round_half_even (x / ulp x)) * ulp x \<le> 2 powi (float_exponent x + 1)"
    by (simp only: ulp_times_2_53)
  then show ?thesis
    using assms by (simp add: round_double_def)
qed

lemma binade_le_round_double:
  assumes "0 < x" and "- 1022 < float_exponent x"
  shows "2 powi (float_exponent x) \<le> round_double x"
proof -
  have "2 powi (float_exponent x) \<le> x"
    using binade_le_abs [of x] assms by simp
  then have "2 ^ 52 * ulp x \<le> x" by (simp only: ulp_times_2_52)
  then have "2 ^ 52 \<le> x / ulp x"
    using ulp_pos [of x] by (simp only: pos_le_divide_eq)
  then have "of_int (2 ^ 52) \<le> x / ulp x"
    by simp
  then have "round_half_even (of_int (2 ^ 52)) \<le> round_half_even (x / ulp x)"
    by (rule round_half_even_mono)
  then have "2 ^ 52 \<le> round_half_even (x / ulp x)"
    by (simp only: round_half_even_of_int)
  then have "2 ^ 52 \<le> real_of_int (round_half_even (x / ulp x))"
    by (metis of_int_numeral_le_iff numeral_power_le_of_int_cancel_iff)
  then have "2 ^ 52 * ulp x \<le> real_of_int (round_half_even (x / ulp x)) * ulp x"
    by (intro mult_right_mono) simp_all
  then have "2 powi (float_exponent x) \<le> real_of_int (round_half_even (x / ulp x)) * ulp x"
    by (simp only: ulp_times_2_52)
  then show ?thesis
    using assms by (simp add: round_double_def)
qed

text \<open>Rounding is monotone (shown here from 0 on, which is all the retry engine needs).\<close>

lemma round_double_mono_pos:
  assumes "0 < x" and "x \<le> y"
  shows "round_double x \<le> round_double y"
proof (cases "float_exponent x = float_exponent y")
  case True
  then have u: "ulp y = ulp x" by (simp add: ulp_def)
  have "x / ulp x \<le> y / ulp x" using assms(2) by (simp add: divide_right_mono)
  then have "round_half_even (x / ulp x) \<le> round_half_even (y / ulp x)"
    by (rule round_half_even_mono)
  then have "real_of_int (round_half_even (x / ulp x)) * ulp x
      \<le> real_of_int (round_half_even (y / ulp x)) * ulp x"
    by (intro mult_right_mono) simp_all
  then show ?thesis
    using assms by (simp add: round_double_def u)
next
  case False
  have y: "0 < y" using assms by simp
  have "float_exponent x \<le> float_exponent y" using assms by (rule float_exponent_mono)
  with False have lt: "float_exponent x < float_exponent y" by simp
  then have n: "- 1022 < float_exponent y" using float_exponent_ge [of x] by simp
  have "round_double x \<le> 2 powi (float_exponent x + 1)"
    using assms(1) by (rule round_double_le_next_binade)
  also have "\<dots> \<le> 2 powi (float_exponent y)"
    using lt by (intro power_int_increasing) simp_all
  also have "\<dots> \<le> round_double y"
    using y n by (rule binade_le_round_double)
  finally show ?thesis .
qed

lemma round_double_nonneg:
  assumes "0 \<le> x"
  shows "0 \<le> round_double x"
proof (cases "x = 0")
  case True
  then show ?thesis by simp
next
  case False
  then have "0 \<le> x / ulp x" using assms by simp
  then have "0 \<le> \<lfloor>x / ulp x\<rfloor>" by simp
  also have "\<dots> \<le> round_half_even (x / ulp x)" by (rule round_half_even_bounds)
  finally have "0 \<le> real_of_int (round_half_even (x / ulp x)) * ulp x" by simp
  then show ?thesis using False by (simp add: round_double_def)
qed

lemma round_double_mono:
  assumes "0 \<le> x" and "x \<le> y"
  shows "round_double x \<le> round_double y"
proof (cases "x = 0")
  case True
  then show ?thesis using assms round_double_nonneg [of y] by simp
next
  case False
  then have "0 < x" using assms by simp
  then show ?thesis using assms(2) by (rule round_double_mono_pos)
qed

lemma round_double_between:
  assumes "0 \<le> lo" and "lo \<le> x" and "x \<le> hi"
    and "round_double lo = lo" and "round_double hi = hi"
  shows "lo \<le> round_double x" and "round_double x \<le> hi"
proof -
  have "round_double lo \<le> round_double x" using assms(1,2) by (rule round_double_mono)
  then show "lo \<le> round_double x" using assms(4) by simp
  have "0 \<le> x" using assms(1,2) by simp
  then have "round_double x \<le> round_double hi" using assms(3) by (rule round_double_mono)
  then show "round_double x \<le> hi" using assms(5) by simp
qed

subsection \<open>Doubles that are exact, and operations that stay finite\<close>

lemma round_double_of_int:
  assumes "\<bar>m\<bar> < 2 ^ 53"
  shows "round_double (of_int m) = of_int m"
  using round_double_exact [of "of_int m" m 0] assms by simp

lemma round_double_half [simp]: "round_double (1 / 2) = 1 / 2"
  using round_double_exact [of "1 / 2" 1 "- 1"] by simp

lemma round_double_one [simp]: "round_double 1 = 1"
  using round_double_of_int [of 1] by simp

lemma round_double_minus_one: "round_double (- 1) = - 1"
  using round_double_of_int [of "- 1"] by simp

lemma round_double_two_power: "round_double (2 ^ k) = 2 ^ k"
  using round_double_exact [of "2 ^ k" 1 "int k"] by simp

lemma two_power_le_DBL_MAX:
  assumes "k \<le> 1023"
  shows "(2::real) ^ k \<le> DBL_MAX"
proof -
  have "(2::real) ^ k \<le> 2 ^ 1023" using assms by (intro power_increasing) simp_all
  also have "\<dots> = 2 ^ 52 * 2 ^ 971" by (simp flip: power_add)
  also have "\<dots> \<le> (2 ^ 53 - 1) * 2 ^ 971" by (intro mult_right_mono) simp_all
  finally show ?thesis by (simp add: DBL_MAX_def)
qed

lemma DBL_MAX_less: "DBL_MAX < 2 ^ 1024"
proof -
  have "(2 ^ 53 - 1) * (2::real) ^ 971 < 2 ^ 53 * 2 ^ 971"
    by (intro mult_strict_right_mono) simp_all
  also have "\<dots> = 2 ^ 1024" by (simp flip: power_add)
  finally show ?thesis by (simp add: DBL_MAX_def)
qed

lemma DBL_MAX_pos: "0 < DBL_MAX"
  by (simp add: DBL_MAX_def)

lemma one_le_DBL_MAX: "1 \<le> DBL_MAX"
  using two_power_le_DBL_MAX [of 0] by simp

lemma round_double_4e9: "round_double 4000000000 = 4000000000"
  using round_double_of_int [of 4000000000] by simp

lemma round_double_4e18: "round_double 4000000000000000000 = 4000000000000000000"
  using round_double_exact [of 4000000000000000000 3814697265625 20] by simp

lemma le_DBL_MAX_4e9: "4000000000 \<le> DBL_MAX"
proof -
  have "(4000000000::real) \<le> 2 ^ 32" by simp
  also have "\<dots> \<le> DBL_MAX" by (rule two_power_le_DBL_MAX) simp
  finally show ?thesis .
qed

lemma is_double_half: "is_double (1 / 2)"
  using one_le_DBL_MAX by (simp add: is_double_def)

lemma to_float_finite:
  assumes "0 \<le> x" and "x \<le> hi" and "round_double hi = hi" and "hi \<le> DBL_MAX"
  shows "to_float x = Finite (round_double x)" and "0 \<le> round_double x" and "round_double x \<le> hi"
proof -
  show n: "0 \<le> round_double x" using assms(1) by (rule round_double_nonneg)
  have "round_double x \<le> round_double hi" using assms(1,2) by (rule round_double_mono)
  then show h: "round_double x \<le> hi" using assms(3) by simp
  have "- DBL_MAX \<le> round_double x" using n DBL_MAX_pos by simp
  then show "to_float x = Finite (round_double x)"
    using h assms(4) by (simp add: to_float_def Let_def)
qed

lemma to_float_exact:
  assumes "round_double x = x" and "\<bar>x\<bar> \<le> DBL_MAX"
  shows "to_float x = Finite x"
proof -
  have "\<not> DBL_MAX < x" "\<not> x < - DBL_MAX" using assms(2) by linarith+
  then show ?thesis using assms(1) by (simp add: to_float_def Let_def)
qed

lemma int_to_float_two_power:
  assumes "k \<le> 1023"
  shows "int_to_float (2 ^ k) = Inr (Finite (2 ^ k))"
proof -
  have "\<not> (2::real) ^ k < - DBL_MAX"
    using DBL_MAX_pos by (simp add: not_less order_trans [of "- DBL_MAX" 0])
  then have "to_float (2 ^ k) = Finite (2 ^ k)"
    using two_power_le_DBL_MAX [OF assms]
    by (simp add: to_float_def round_double_two_power Let_def)
  then show ?thesis by (simp add: int_to_float_def)
qed

lemma int_to_float_overflow:
  assumes "1024 \<le> k"
  shows "int_to_float (2 ^ k) = Inl OverflowError"
proof -
  have "(2::real) ^ 1024 \<le> 2 ^ k" using assms by (intro power_increasing) simp_all
  then have "DBL_MAX < 2 ^ k" using DBL_MAX_less by simp
  then have "to_float (2 ^ k) = PosInf"
    by (simp add: to_float_def round_double_two_power Let_def)
  then show ?thesis by (simp add: int_to_float_def)
qed

lemma double_significand:
  assumes "round_double b = b" and "b \<noteq> 0"
  shows "\<exists>n. b = of_int n * 2 powi (float_exponent b - 52) \<and> \<bar>n\<bar> < 2 ^ 53"
proof -
  define u where "u = ulp b"
  define n where "n = round_half_even (b / u)"
  have u: "0 < u" by (simp add: u_def)
  have b: "b = of_int n * u"
    using assms by (simp add: round_double_def n_def u_def)
  have "\<bar>b\<bar> < 2 powi (float_exponent b + 1)"
    using assms(2) by (rule abs_less_next_binade)
  then have "\<bar>b\<bar> < 2 ^ 53 * u"
    by (simp only: ulp_times_2_53 u_def)
  moreover have "\<bar>b\<bar> = \<bar>of_int n\<bar> * u"
    using arg_cong [OF b, of abs] u by (simp add: abs_mult)
  ultimately have "\<bar>real_of_int n\<bar> * u < 2 ^ 53 * u" by simp
  then have "\<bar>real_of_int n\<bar> < 2 ^ 53" using u by (simp only: mult_less_cancel_right_pos)
  then have "real_of_int \<bar>n\<bar> < real_of_int (2 ^ 53)" by simp
  then have "\<bar>n\<bar> < 2 ^ 53" by (simp only: of_int_less_iff)
  then show ?thesis using b by (auto simp: u_def ulp_def)
qed

lemma round_double_scaled:
  assumes "round_double b = b" and "- 1022 \<le> float_exponent b + k"
  shows "round_double (b * 2 powi k) = b * 2 powi k"
proof (cases "b = 0")
  case True
  then show ?thesis by simp
next
  case False
  obtain n where n: "b = of_int n * 2 powi (float_exponent b - 52)" "\<bar>n\<bar> < 2 ^ 53"
    using double_significand [OF assms(1) False] by blast
  define e where "e = float_exponent b - 52"
  have "b * 2 powi k = of_int n * 2 powi (e + k)"
    using n(1) by (simp add: power_int_add e_def)
  moreover have "- 1074 \<le> e + k" using assms(2) by (simp add: e_def)
  ultimately show ?thesis using n(2) by (intro round_double_exact) simp_all
qed

lemma round_double_times_two_power:
  assumes "round_double b = b"
  shows "round_double (b * 2 ^ k) = b * 2 ^ k"
proof -
  have "- 1022 \<le> float_exponent b + int k"
    using float_exponent_ge [of b] by simp
  then have "round_double (b * 2 powi int k) = b * 2 powi int k"
    using assms by (rule round_double_scaled [rotated])
  then show ?thesis by simp
qed

lemma float_exponent_lower:
  assumes "2 powi k \<le> x"
  shows "k \<le> float_exponent x"
proof -
  have p: "0 < x" using assms two_powi_pos [of k] by linarith
  have "2 powr (real_of_int k) = 2 powi k"
    using powr_real_of_int' [of 2 k] by simp
  then have "2 powr (real_of_int k) \<le> x" using assms by simp
  then have "real_of_int k \<le> log 2 x"
    using p by (simp add: le_log_iff)
  then have "k \<le> \<lfloor>log 2 \<bar>x\<bar>\<rfloor>" using p by (simp add: le_floor_iff)
  then show ?thesis by (simp add: float_exponent_def)
qed

lemma round_double_half_of:
  assumes "round_double d = d" and "2 powi (- 1021) \<le> d"
  shows "round_double (d / 2) = d / 2"
proof -
  have "- 1021 \<le> float_exponent d" using assms(2) by (rule float_exponent_lower)
  then have "- 1022 \<le> float_exponent d + (- 1)" by simp
  then have "round_double (d * 2 powi (- 1)) = d * 2 powi (- 1)"
    using assms(1) by (rule round_double_scaled [rotated])
  then show ?thesis by (simp add: power_int_minus field_simps)
qed

lemma float_exponent_upper:
  assumes "0 < x" and "x < 2 powi (k + 1)" and "- 1022 \<le> k"
  shows "float_exponent x \<le> k"
proof -
  have "2 powr (real_of_int (k + 1)) = 2 powi (k + 1)"
    using powr_real_of_int' [of 2 "k + 1"] by simp
  then have "x < 2 powr (real_of_int (k + 1))" using assms(2) by simp
  then have "log 2 x < real_of_int (k + 1)"
    using assms(1) by (simp add: log_less_iff)
  then have "\<lfloor>log 2 x\<rfloor> < k + 1" by (simp only: floor_less_iff)
  then have "\<lfloor>log 2 \<bar>x\<bar>\<rfloor> \<le> k" using assms(1) by simp
  then show ?thesis using assms(3) by (simp add: float_exponent_def)
qed

lemma half_of_least_subnormal:
  fixes u x :: real
  assumes u: "u = 2 powi (- 1074)" and x: "x = u * (1 / 2)"
  shows "round_double x = 0"
proof -
  have u0: "0 < u" unfolding u by (rule two_powi_pos)
  have x0: "0 < x" using u0 by (simp add: x)
  have "u \<le> 2 powi (- 1021)" unfolding u by (rule power_int_increasing) simp_all
  moreover have "x < u" using u0 by (simp add: x)
  moreover have "(- 1022::int) + 1 = - 1021" by simp
  ultimately have "x < 2 powi (- 1022 + 1)" by (simp only:) 
  then have "float_exponent x \<le> - 1022" using x0 by (intro float_exponent_upper) simp_all
  then have e: "float_exponent x = - 1022" using float_exponent_ge [of x] by simp
  have "ulp x = 2 powi (- 1022 - 52)" by (simp only: ulp_def e)
  then have "ulp x = u" unfolding u by simp
  then have "x / ulp x = 1 / 2" using u0 by (simp add: x)
  moreover have "round_half_even (1 / 2) = 0" by (simp add: round_half_even_def Let_def)
  ultimately show ?thesis by (simp add: round_double_def)
qed

section \<open>The JA3 string\<close>

lemma ja3_extensions_chars:
  "x \<in> set (ja3_extensions version) \<Longrightarrow> CHR '','' \<notin> set x \<and> CHR ''-'' \<notin> set x"
  by (auto simp: ja3_extensions_def BASE_EXTENSIONS_def ECH_EXTENSION_def split: if_splits)

lemma ja3_extensions_not_Nil: "ja3_extensions version \<noteq> []"
  by (simp add: ja3_extensions_def BASE_EXTENSIONS_def)

lemma comma_notin_ext_str:
  "CHR '','' \<notin> set (join ''-'' (permute_extensions rnd (ja3_extensions version)))"
proof
  assume "CHR '','' \<in> set (join ''-'' (permute_extensions rnd (ja3_extensions version)))"
  then have "CHR '','' \<in> set ''-'' \<union> \<Union> (set ` set (permute_extensions rnd (ja3_extensions version)))"
    using set_join by blast
  then obtain x where "x \<in> set (ja3_extensions version)" "CHR '','' \<in> set x"
    by (auto simp: permute_extensions_def set_shuffle)
  then show False using ja3_extensions_chars by blast
qed

lemma ja3_fields_generate:
  "ja3_fields (ja3_generate rnd version bt) =
     [TLS_VERSION, CIPHERS, join ''-'' (permute_extensions rnd (ja3_extensions version)),
      (if version \<ge> 130 then CURVE_SETS_kyber else CURVE_SETS_old), EC_POINT_FORMATS]"
proof -
  let ?e = "join ''-'' (permute_extensions rnd (ja3_extensions version))"
  let ?c = "if version \<ge> 130 then CURVE_SETS_kyber else CURVE_SETS_old"
  have g: "ja3_generate rnd version bt =
      TLS_VERSION @ CHR '','' # CIPHERS @ CHR '','' # ?e @ CHR '','' # ?c @ CHR '','' # EC_POINT_FORMATS"
    by (simp add: ja3_generate_def ja3_extensions_def Let_def)
  have 1: "CHR '','' \<notin> set TLS_VERSION" by (simp add: TLS_VERSION_def)
  have 2: "CHR '','' \<notin> set CIPHERS" by (simp add: CIPHERS_def)
  have 3: "CHR '','' \<notin> set ?e" by (rule comma_notin_ext_str)
  have 4: "CHR '','' \<notin> set ?c" by (simp add: CURVE_SETS_kyber_def CURVE_SETS_old_def)
  have 5: "CHR '','' \<notin> set EC_POINT_FORMATS" by (simp add: EC_POINT_FORMATS_def)
  show ?thesis
    unfolding ja3_fields_def g
    by (simp only: split_on_append_sep [OF 1] split_on_append_sep [OF 2]
        split_on_append_sep [OF 3] split_on_append_sep [OF 4] split_on_no_sep [OF 5])
qed

lemma ja3_extension_field_generate:
  "ja3_extension_field (ja3_generate rnd version bt) =
     permute_extensions rnd (ja3_extensions version)"
proof -
  have "split_on (CHR ''-'') (join [CHR ''-''] (permute_extensions rnd (ja3_extensions version)))
        = permute_extensions rnd (ja3_extensions version)"
  proof (rule split_on_join)
    show "permute_extensions rnd (ja3_extensions version) \<noteq> []"
      using ja3_extensions_not_Nil mset_shuffle [of rnd "ja3_extensions version"]
      by (auto simp: permute_extensions_def)
  next
    fix x assume "x \<in> set (permute_extensions rnd (ja3_extensions version))"
    then show "CHR ''-'' \<notin> set x"
      using ja3_extensions_chars by (simp add: permute_extensions_def set_shuffle)
  qed
  then show ?thesis
    by (simp add: ja3_extension_field_def ja3_fields_generate)
qed

text \<open>
  C3. Whatever the version, the browser type and the draws of the shuffle, the extension
  field of the generated JA3 string holds exactly the base extension ids, and the id 17613
  once more when the version is at least 117: the same multiset, no id twice.
\<close>

theorem ja3_extensions_permutation:
  "mset (ja3_extension_field (ja3_generate rnd version bt)) =
     mset BASE_EXTENSIONS + (if version \<ge> 117 then {#ECH_EXTENSION#} else {#})
   \<and> distinct (ja3_extension_field (ja3_generate rnd version bt))"
proof -
  let ?f = "ja3_extension_field (ja3_generate rnd version bt)"
  have m: "mset ?f = mset (ja3_extensions version)"
    by (simp add: ja3_extension_field_generate permute_extensions_def mset_shuffle)
  have d: "distinct (ja3_extensions version)"
    by (simp add: ja3_extensions_def BASE_EXTENSIONS_def ECH_EXTENSION_def)
  have "distinct ?f"
    using m d by (metis mset_eq_imp_distinct_iff)
  moreover have "mset (ja3_extensions version) =
     mset BASE_EXTENSIONS + (if version \<ge> 117 then {#ECH_EXTENSION#} else {#})"
    by (simp add: ja3_extensions_def)
  ultimately show ?thesis using m by simp
qed

text \<open>
  C8. The curve field of the generated JA3 string holds the hybrid group id 4588 exactly
  when the version is at least 130; below 130 it is the three classic curves.
\<close>

theorem ja3_curves_by_version:
  "(''4588'' \<in> set (ja3_curve_field (ja3_generate rnd version bt))) = (version \<ge> 130)
   \<and> ja3_curve_field (ja3_generate rnd version bt) =
       (if version \<ge> 130 then [''4588'', ''29'', ''23'', ''24''] else [''29'', ''23'', ''24''])"
  by (simp add: ja3_curve_field_def ja3_fields_generate CURVE_SETS_kyber_def CURVE_SETS_old_def)

section \<open>Safari fingerprints\<close>

lemma akamai_safari_a:
  "akamai_generate akamai_draws_a ''safari'' = Inr ''1:4096;4:4194304;6:262144|15859710|3|m,p,a,s''"
  by (simp add: akamai_generate_def generate_settings_def and_then_def randbelow_def
      akamai_draws_a_def WINDOW_UPDATE_VALUES_def PRIORITY_VALUES_def PSEUDO_HEADER_ORDERS_def
      str_int_def str_nat.simps digit_char_def)

lemma akamai_safari_b:
  "akamai_generate akamai_draws_b ''safari'' = Inr ''1:4096;4:4194304;6:262144|15663105|0|m,a,s,p''"
  by (simp add: akamai_generate_def generate_settings_def and_then_def randbelow_def
      akamai_draws_b_def WINDOW_UPDATE_VALUES_def PRIORITY_VALUES_def PSEUDO_HEADER_ORDERS_def
      str_int_def str_nat.simps digit_char_def)

lemma ja3_safari_zero:
  "ja3_generate draws_zero 18 ''safari'' =
     ''771,4865-4866-4867-49195-49199-49196-49200-52393-52392-49171-49172-156-157-47-53,5-10-11-13-16-18-23-27-35-43-45-51-65037-65281-0,29-23-24,0''"
  by code_simp

lemma ja3_safari_self:
  "ja3_generate draws_self 18 ''safari'' =
     ''771,4865-4866-4867-49195-49199-49196-49200-52393-52392-49171-49172-156-157-47-53,0-5-10-11-13-16-18-23-27-35-43-45-51-65037-65281,29-23-24,0''"
  by code_simp

text \<open>
  C1, as stated, fails: two generations for safari with different draws give different
  JA3 strings and different Akamai strings.
\<close>

theorem safari_fingerprints_differ:
  "ja3_generate draws_zero 18 ''safari'' \<noteq> ja3_generate draws_self 18 ''safari''
   \<and> akamai_generate akamai_draws_a ''safari'' \<noteq> akamai_generate akamai_draws_b ''safari''"
  unfolding ja3_safari_zero ja3_safari_self akamai_safari_a akamai_safari_b
  by simp

text \<open>
  C1, amended. For safari only the SETTINGS field of the Akamai string is the constant
  \<^verbatim>\<open>1:4096;4:4194304;6:262144\<close>; the window update, the priority and the pseudo-header
  order are drawn as for every browser type. The JA3 generator does not read the browser
  type: the safari string is the one any other browser type gets from the same version and
  draws, and its extension field is the shuffled generic extension list.
\<close>

theorem safari_settings_fixed:
  "generate_settings d ''safari'' = Inr ''1:4096;4:4194304;6:262144''
   \<and> akamai_generate d ''safari'' =
       Inr (''1:4096;4:4194304;6:262144'' @ ''|''
            @ str_int (WINDOW_UPDATE_VALUES ! randbelow (window_pick d) (length WINDOW_UPDATE_VALUES)) @ ''|''
            @ PRIORITY_VALUES ! randbelow (priority_pick d) (length PRIORITY_VALUES) @ ''|''
            @ PSEUDO_HEADER_ORDERS ! randbelow (pseudo_pick d) (length PSEUDO_HEADER_ORDERS))
   \<and> ja3_generate rnd version ''safari'' = ja3_generate rnd version bt
   \<and> ja3_extension_field (ja3_generate rnd version ''safari'') =
       permute_extensions rnd (ja3_extensions version)"
proof -
  have s: "generate_settings d ''safari'' = Inr ''1:4096;4:4194304;6:262144''"
    by (simp add: generate_settings_def)
  have a: "akamai_generate d ''safari'' =
       Inr (''1:4096;4:4194304;6:262144'' @ ''|''
            @ str_int (WINDOW_UPDATE_VALUES ! randbelow (window_pick d) (length WINDOW_UPDATE_VALUES)) @ ''|''
            @ PRIORITY_VALUES ! randbelow (priority_pick d) (length PRIORITY_VALUES) @ ''|''
            @ PSEUDO_HEADER_ORDERS ! randbelow (pseudo_pick d) (length PSEUDO_HEADER_ORDERS))"
  proof -
    have "WINDOW_UPDATE_VALUES \<noteq> []" "PRIORITY_VALUES \<noteq> []" "PSEUDO_HEADER_ORDERS \<noteq> []"
      by (simp_all add: WINDOW_UPDATE_VALUES_def PRIORITY_VALUES_def PSEUDO_HEADER_ORDERS_def)
    then show ?thesis
      unfolding akamai_generate_def s by (simp add: and_then_def choice_nonempty)
  qed
  have j: "ja3_generate rnd version ''safari'' = ja3_generate rnd version bt"
    by (simp add: ja3_generate_def)
  show ?thesis
    using s a j ja3_extension_field_generate [of rnd version "''safari''"] by blast
qed

section \<open>The retry engine\<close>

lemma and_then_Inr [simp]: "and_then (Inr x) f = f x"
  by (simp add: and_then_def)

lemma and_then_Inl [simp]: "and_then (Inl e) f = Inl e"
  by (simp add: and_then_def)

subsection \<open>The delay and the sleep\<close>

lemma random_uniform_range: "0 \<le> random_uniform raw \<and> random_uniform raw < 1"
proof -
  have "raw mod 2 ^ 53 < (2::nat) ^ 53" by simp
  then have "real (raw mod 2 ^ 53) < 2 ^ 53"
    by (metis of_nat_less_iff of_nat_numeral of_nat_power)
  then show ?thesis by (simp add: random_uniform_def)
qed

text \<open>The jitter factor \<^verbatim>\<open>0.5 + random.random() * 0.5\<close> is a float between 1/2 and 1.\<close>

lemma jitter_factor:
  "\<exists>s. fadd (Finite 0.5) (fmul (Finite (random_uniform raw)) (Finite 0.5)) = Finite s
       \<and> 1 / 2 \<le> s \<and> s \<le> 1"
proof -
  let ?u = "random_uniform raw"
  have u: "0 \<le> ?u" "?u < 1" using random_uniform_range [of raw] by simp_all
  have h: "(1::real) / 2 \<le> DBL_MAX" "(1::real) \<le> DBL_MAX"
    using two_power_le_DBL_MAX [of 0] by simp_all
  have t: "fmul (Finite ?u) (Finite 0.5) = Finite (round_double (?u * 0.5))"
    and t0: "0 \<le> round_double (?u * 0.5)" and t1: "round_double (?u * 0.5) \<le> 1 / 2"
    using to_float_finite [of "?u * 0.5" "1 / 2"] u h by simp_all
  let ?t = "round_double (?u * 0.5)"
  have s: "to_float (0.5 + ?t) = Finite (round_double (0.5 + ?t))"
    and s1: "round_double (0.5 + ?t) \<le> 1"
    using to_float_finite [of "0.5 + ?t" 1] t0 t1 h by simp_all
  have "1 / 2 \<le> round_double (0.5 + ?t)"
    using round_double_between(1) [of "1 / 2" "0.5 + ?t" 1] t0 t1 by simp
  then show ?thesis using t s s1 by simp
qed

lemma two_to_the_nonneg: "0 \<le> attempt \<Longrightarrow> two_to_the attempt = Inr (Inl (2 ^ nat attempt))"
  by (simp add: two_to_the_def)

lemma float_times_two_power:
  assumes "round_double b = b" and "k \<le> 1023" and "\<bar>b * 2 ^ k\<bar> \<le> DBL_MAX"
  shows "float_times (Finite b) (Inl (2 ^ k)) = Inr (Finite (b * 2 ^ k))"
proof -
  have "round_double (b * 2 ^ k) = b * 2 ^ k"
    using assms(1) by (rule round_double_times_two_power)
  then have "to_float (b * 2 ^ k) = Finite (b * 2 ^ k)"
    using assms(3) by (rule to_float_exact)
  then show ?thesis
    using int_to_float_two_power [OF assms(2)] by (simp add: float_times_def)
qed

lemma get_backoff_time_bounded:
  assumes "backoff_factor cfg = Finite b" and "0 \<le> b"
    and "0 \<le> attempt" and "attempt \<le> 1023"
    and "b * 2 ^ nat attempt \<le> hi" and "round_double hi = hi" and "hi \<le> DBL_MAX"
  shows "\<exists>d. get_backoff_time cfg raw attempt = Inr (Finite d) \<and> 0 \<le> d \<and> d \<le> hi"
proof -
  let ?k = "nat attempt"
  let ?d = "round_double (b * 2 ^ ?k)"
  have k: "?k \<le> 1023" using assms(4) by simp
  have p: "two_to_the attempt = Inr (Inl (2 ^ ?k))"
    using assms(3) by (simp add: two_to_the_def)
  have nn: "0 \<le> b * 2 ^ ?k" using assms(2) by simp
  have d: "to_float (b * 2 ^ ?k) = Finite ?d" and d0: "0 \<le> ?d" and d1: "?d \<le> hi"
    using to_float_finite [OF nn assms(5,6,7)] by simp_all
  have "real_of_int (2 ^ ?k) = 2 ^ ?k" by simp
  then have delay: "float_times (Finite b) (Inl (2 ^ ?k)) = Inr (Finite ?d)"
    using int_to_float_two_power [OF k] d by (simp add: float_times_def)
  show ?thesis
  proof (cases "jitter cfg")
    case False
    then show ?thesis
      using p delay d0 d1 assms(1) by (simp add: get_backoff_time_def)
  next
    case True
    obtain s where s: "fadd (Finite 0.5) (fmul (Finite (random_uniform raw)) (Finite 0.5)) = Finite s"
      and s0: "1 / 2 \<le> s" and s1: "s \<le> 1"
      using jitter_factor by blast
    have "0 \<le> ?d * s" using d0 s0 by simp
    moreover have "?d * s \<le> hi"
    proof -
      have "?d * s \<le> ?d * 1" using d0 s1 by (intro mult_left_mono) simp_all
      then show ?thesis using d1 by simp
    qed
    ultimately have "to_float (?d * s) = Finite (round_double (?d * s))"
      and "0 \<le> round_double (?d * s)" and "round_double (?d * s) \<le> hi"
      using to_float_finite [of "?d * s" hi] assms(6,7) by simp_all
    then show ?thesis
      using True p delay s assms(1) by (simp add: get_backoff_time_def)
  qed
qed

lemma get_backoff_time_no_jitter:
  assumes "backoff_factor cfg = Finite b" and "round_double b = b" and "\<not> jitter cfg"
    and "0 \<le> attempt" and "attempt \<le> 1023" and "\<bar>b * 2 ^ nat attempt\<bar> \<le> DBL_MAX"
  shows "get_backoff_time cfg raw attempt = Inr (Finite (b * 2 ^ nat attempt))"
proof -
  have "nat attempt \<le> 1023" using assms(5) by simp
  then have "float_times (Finite b) (Inl (2 ^ nat attempt)) = Inr (Finite (b * 2 ^ nat attempt))"
    using assms(2,6) by (intro float_times_two_power)
  then show ?thesis
    using assms(1,3) two_to_the_nonneg [OF assms(4)] by (simp add: get_backoff_time_def)
qed

lemma get_backoff_time_jitter:
  assumes "backoff_factor cfg = Finite b" and "round_double b = b" and "jitter cfg"
    and "2 powi (- 1021) \<le> b"
    and "0 \<le> attempt" and "attempt \<le> 1023" and "b * 2 ^ nat attempt \<le> DBL_MAX"
  shows "\<exists>f. 1 / 2 \<le> f \<and> f \<le> 1
           \<and> get_backoff_time cfg raw attempt = Inr (Finite (b * 2 ^ nat attempt * f))"
proof -
  define v where "v = b * 2 ^ nat attempt"
  have b0: "0 < b" using assms(4) two_powi_pos [of "- 1021"] by linarith
  have "b * 1 \<le> b * 2 ^ nat attempt" using b0 by (intro mult_left_mono) simp_all
  then have bv: "b \<le> v" by (simp add: v_def)
  then have v0: "0 < v" using b0 by simp
  have vfix: "round_double v = v"
    unfolding v_def using assms(2) by (rule round_double_times_two_power)
  have vmax: "v \<le> DBL_MAX" using assms(7) by (simp add: v_def)
  have hfix: "round_double (v / 2) = v / 2"
    using vfix assms(4) bv by (intro round_double_half_of) simp_all
  have k: "nat attempt \<le> 1023" using assms(6) by simp
  have "\<bar>b * 2 ^ nat attempt\<bar> \<le> DBL_MAX" using v0 vmax by (simp add: v_def)
  then have delay: "float_times (Finite b) (Inl (2 ^ nat attempt)) = Inr (Finite v)"
    unfolding v_def using assms(2) k by (intro float_times_two_power)
  obtain s where s: "fadd (Finite 0.5) (fmul (Finite (random_uniform raw)) (Finite 0.5)) = Finite s"
    and s0: "1 / 2 \<le> s" and s1: "s \<le> 1"
    using jitter_factor by blast
  define w where "w = round_double (v * s)"
  have lo: "v / 2 \<le> v * s" using v0 s0 by (simp add: field_simps)
  have "v * s \<le> v * 1" using v0 s1 by (intro mult_left_mono) simp_all
  then have hi: "v * s \<le> v" by simp
  have h0: "0 \<le> v / 2" using v0 by simp
  have w0: "v / 2 \<le> w" and w1: "w \<le> v"
    unfolding w_def using round_double_between [OF h0 lo hi hfix vfix] by simp_all
  have "\<bar>w\<bar> \<le> DBL_MAX" using w0 w1 v0 vmax by simp
  then have "\<not> DBL_MAX < w" "\<not> w < - DBL_MAX" by linarith+
  then have "to_float (v * s) = Finite w" by (simp add: to_float_def Let_def w_def)
  then have res: "get_backoff_time cfg raw attempt = Inr (Finite w)"
    using assms(1,3) two_to_the_nonneg [OF assms(5)] delay s by (simp add: get_backoff_time_def)
  define f where "f = w / v"
  have "1 / 2 \<le> f" using w0 v0 by (simp add: f_def field_simps)
  moreover have "f \<le> 1" using w1 v0 by (simp add: f_def)
  moreover have "w = v * f" using v0 by (simp add: f_def)
  ultimately show ?thesis using res unfolding v_def by blast
qed

lemma get_backoff_time_overflow:
  assumes "1024 \<le> attempt"
  shows "get_backoff_time cfg raw attempt = Inl OverflowError"
proof -
  have "0 \<le> attempt" using assms by simp
  then have "two_to_the attempt = Inr (Inl (2 ^ nat attempt))" by (rule two_to_the_nonneg)
  moreover have "int_to_float (2 ^ nat attempt) = Inl OverflowError"
    using assms by (intro int_to_float_overflow) simp
  ultimately show ?thesis by (simp add: get_backoff_time_def float_times_def)
qed

lemma time_sleep_ok:
  assumes "0 \<le> d" and "d \<le> 4000000000"
  shows "time_sleep (Finite d) = Inr ()"
proof -
  define r where "r = round_double (d * 10 ^ 9)"
  have x0: "0 \<le> d * 10 ^ 9" using assms(1) by simp
  have x1: "d * 10 ^ 9 \<le> 4000000000000000000" using assms(2) by simp
  have r0: "0 \<le> r" unfolding r_def using x0 by (rule round_double_nonneg)
  have "round_double (d * 10 ^ 9) \<le> round_double 4000000000000000000"
    using x0 x1 by (rule round_double_mono)
  then have r1: "r \<le> 4000000000000000000" by (simp add: r_def round_double_4e18)
  have c0: "0 \<le> \<lceil>r\<rceil>" using r0 by simp
  have "\<lceil>r\<rceil> \<le> 4000000000000000000" using r1 by (simp add: ceiling_le_iff)
  then have c1: "\<lceil>r\<rceil> < 2 ^ 63" by simp
  have "round_away r = \<lceil>r\<rceil>" using r0 by (simp add: round_away_def)
  then have "round_away (round_double (d * 10 ^ 9)) = \<lceil>r\<rceil>" by (simp only: r_def)
  then show ?thesis
    using c0 c1 by (simp add: time_sleep_def Let_def)
qed

lemma time_sleep_negative: "time_sleep (Finite (- 1)) = Inl ValueError"
proof -
  have "round_double (- 1000000000) = - 1000000000"
    using round_double_of_int [of "- 1000000000"] by simp
  then show ?thesis by (simp add: time_sleep_def round_away_def Let_def)
qed

subsection \<open>Retryable responses until the attempts run out\<close>

lemma should_retry_response:
  "should_retry cfg (Some r) None = (status_code r \<in> set (retry_on_status cfg))"
  by (simp add: should_retry_def)


lemma backoff_and_sleep_ok:
  assumes "backoff_factor cfg = Finite b" and "0 \<le> b"
    and "0 \<le> attempt" and "attempt \<le> 1023" and "b * 2 ^ nat attempt \<le> 4000000000"
  shows "\<exists>st'. backoff_and_sleep cfg jit attempt st = Inr st' \<and> calls st' = calls st
           \<and> last_exception st' = last_exception st \<and> last_response st' = last_response st"
proof -
  obtain d where d: "get_backoff_time cfg (jit (draws st)) attempt = Inr (Finite d)"
    and d0: "0 \<le> d" and d1: "d \<le> 4000000000"
    using get_backoff_time_bounded [OF assms round_double_4e9 le_DBL_MAX_4e9] by blast
  have "time_sleep (Finite d) = Inr ()" using d0 d1 by (rule time_sleep_ok)
  then show ?thesis using d by (simp add: backoff_and_sleep_def Let_def)
qed

lemma attempt_step_retry_response:
  assumes "backoff_factor cfg = Finite b" and "0 \<le> b"
    and "0 \<le> attempt" and "attempt \<le> 1023" and "b * 2 ^ nat attempt \<le> 4000000000"
    and "req (calls st) = Inr r"
    and "status_code r \<in> set (retry_on_status cfg)" and "attempt < max_retries cfg"
  shows "\<exists>st'. attempt_step cfg jit req attempt st = Continue st' \<and> calls st' = calls st + 1
           \<and> last_exception st' = last_exception st \<and> last_response st' = last_response st"
proof -
  obtain st' where "backoff_and_sleep cfg jit attempt (st\<lparr>calls := calls st + 1\<rparr>) = Inr st'"
    and "calls st' = calls (st\<lparr>calls := calls st + 1\<rparr>)"
    and "last_exception st' = last_exception (st\<lparr>calls := calls st + 1\<rparr>)"
    and "last_response st' = last_response (st\<lparr>calls := calls st + 1\<rparr>)"
    using backoff_and_sleep_ok [OF assms(1-5)] by blast
  then show ?thesis
    using assms(6-8) by (simp add: attempt_step_def should_retry_response Let_def)
qed

lemma attempt_step_final_response:
  assumes "req (calls st) = Inr r" and "\<not> attempt < max_retries cfg"
  shows "attempt_step cfg jit req attempt st = Return r (st\<lparr>calls := calls st + 1\<rparr>)"
  using assms by (simp add: attempt_step_def Let_def)

lemma retry_loop_all_retryable:
  assumes f: "backoff_factor cfg = Finite b" and b: "0 \<le> b"
    and m: "max_retries cfg \<le> 1023" and h: "b * 2 ^ nat (max_retries cfg) \<le> 4000000000"
    and r: "\<And>n. \<exists>r. req n = Inr r \<and> status_code r \<in> set (retry_on_status cfg)"
  shows "0 \<le> a \<Longrightarrow> a \<le> max_retries cfg \<Longrightarrow>
         \<exists>st'. retry_loop cfg jit req [a..max_retries cfg] st
                 = (req (calls st + nat (max_retries cfg - a)), st')
               \<and> calls st' = calls st + nat (max_retries cfg - a) + 1"
proof (induction "nat (max_retries cfg - a)" arbitrary: a st)
  case 0
  then have a: "a = max_retries cfg" by simp
  obtain r0 where r0: "req (calls st) = Inr r0" using r by blast
  have "attempt_step cfg jit req a st = Return r0 (st\<lparr>calls := calls st + 1\<rparr>)"
    using r0 a by (intro attempt_step_final_response) simp_all
  then show ?case using a r0 by simp
next
  case (Suc k)
  then have lt: "a < max_retries cfg" by linarith
  obtain r0 where r0: "req (calls st) = Inr r0" "status_code r0 \<in> set (retry_on_status cfg)"
    using r by blast
  have a1: "a \<le> 1023" using lt m by simp
  have "(2::real) ^ nat a \<le> 2 ^ nat (max_retries cfg)"
    using lt by (intro power_increasing) simp_all
  then have "b * 2 ^ nat a \<le> b * 2 ^ nat (max_retries cfg)"
    using b by (rule mult_left_mono)
  then have ha: "b * 2 ^ nat a \<le> 4000000000" using h by simp
  obtain st1 where s1: "attempt_step cfg jit req a st = Continue st1" "calls st1 = calls st + 1"
    using attempt_step_retry_response [where cfg = cfg and req = req and st = st and r = r0
        and attempt = a and jit = jit and b = b] f b Suc.prems(1) a1 ha r0 lt by blast
  have k: "k = nat (max_retries cfg - (a + 1))" using Suc.hyps(2) by linarith
  have ge: "0 \<le> a + 1" using Suc.prems(1) by simp
  have le: "a + 1 \<le> max_retries cfg" using lt by simp
  obtain st' where st': "retry_loop cfg jit req [a + 1..max_retries cfg] st1
        = (req (calls st1 + nat (max_retries cfg - (a + 1))), st')"
      "calls st' = calls st1 + nat (max_retries cfg - (a + 1)) + 1"
    using Suc.hyps(1) [OF k ge le, of st1] by blast
  have u: "[a..max_retries cfg] = a # [a + 1..max_retries cfg]"
    using lt by (simp add: upto_rec1)
  have n: "calls st1 + nat (max_retries cfg - (a + 1)) = calls st + nat (max_retries cfg - a)"
    using s1(2) lt by linarith
  have r1: "retry_loop cfg jit req [a + 1..max_retries cfg] st1
        = (req (calls st + nat (max_retries cfg - a)), st')"
    using st'(1) unfolding n .
  have c1: "calls st' = calls st + nat (max_retries cfg - a) + 1"
    using st'(2) n by linarith
  show ?case
    unfolding u using s1(1) r1 c1 by simp
qed

lemma negative_backoff_fields:
  "max_retries negative_backoff = 2" "backoff_factor negative_backoff = Finite (- 1)"
  "retry_on_status negative_backoff = [429, 500, 502, 503, 504]"
  "retry_on_timeout negative_backoff" "\<not> jitter negative_backoff"
  by (simp_all add: negative_backoff_def two_retries_def default_retry_config_def)

lemma negative_backoff_time: "get_backoff_time negative_backoff raw 0 = Inr (Finite (- 1))"
  using get_backoff_time_no_jitter [where cfg = negative_backoff and b = "- 1" and attempt = 0
      and raw = raw] negative_backoff_fields round_double_minus_one one_le_DBL_MAX
  by simp

lemma negative_backoff_sleep:
  "backoff_and_sleep negative_backoff jit 0 st = Inl (ValueError, st)"
  by (simp add: backoff_and_sleep_def negative_backoff_time time_sleep_negative
      negative_backoff_fields)

text \<open>
  C2, as stated, fails: nothing in the claim or in the code constrains the backoff factor.
  With \<^verbatim>\<open>max_retries = 2\<close>, 503 retryable, \<^verbatim>\<open>backoff_factor = -1.0\<close> and a request function that
  returns 503 on every call, the first \<^verbatim>\<open>time.sleep(-1.0)\<close> raises ValueError inside the
  \<^verbatim>\<open>try\<close>; the handler finds the exception retryable and sleeps again, and that second
  ValueError leaves the function. One call is made and ValueError reaches the caller.
\<close>

theorem negative_backoff_raises:
  "request_with_retry negative_backoff draws_zero service_unavailable =
     (Inl ValueError,
      \<lparr>calls = 1, draws = 0, slept = [], last_exception = Some ValueError,
       last_response = None\<rparr>)"
proof -
  have "py_range 3 = [0, 1, 2]"
    by (simp add: py_range_def upto_rec1)
  then show ?thesis
    by (simp add: request_with_retry_def negative_backoff_fields negative_backoff_sleep
        initial_retry_state_def attempt_step_def on_exception_def should_retry_def
        service_unavailable_def Let_def)
qed

text \<open>
  C2, amended. With \<^verbatim>\<open>max_retries = 2\<close>, 503 among the retryable codes and a backoff factor that
  is a float between 0 and \<open>10 ^ 9\<close> (so that every delay is a sleep length that
  \<^verbatim>\<open>time.sleep\<close> accepts), a request function that returns a 503 response on every call is
  called exactly three times, and the response of the third call (call number 2) is
  returned; nothing is raised.
\<close>

theorem retry_exhaustion_returns_last_response:
  assumes "max_retries cfg = 2" and "503 \<in> set (retry_on_status cfg)"
    and "backoff_factor cfg = Finite b" and "0 \<le> b" and "b \<le> 10 ^ 9"
    and "\<And>n. \<exists>body. req n = Inr \<lparr>status_code = 503, content = body\<rparr>"
  shows "\<exists>r st. request_with_retry cfg jit req = (Inr r, st) \<and> req 2 = Inr r \<and> calls st = 3"
proof -
  have m: "max_retries cfg \<le> 1023" using assms(1) by simp
  have h: "b * 2 ^ nat (max_retries cfg) \<le> 4000000000"
    using assms(1,5) by simp
  have r: "\<exists>r. req n = Inr r \<and> status_code r \<in> set (retry_on_status cfg)" for n
    using assms(2) assms(6) [of n] by auto
  obtain st' where "retry_loop cfg jit req [0..max_retries cfg] initial_retry_state
        = (req (calls initial_retry_state + nat (max_retries cfg - 0)), st')"
      "calls st' = calls initial_retry_state + nat (max_retries cfg - 0) + 1"
    using retry_loop_all_retryable [where cfg = cfg and req = req and a = 0 and jit = jit
        and st = initial_retry_state and b = b, OF assms(3,4) m h r] assms(1) by auto
  then have "request_with_retry cfg jit req = (req 2, st')" "calls st' = 3"
    using assms(1)
    by (simp_all add: request_with_retry_def py_range_def initial_retry_state_def numeral_2_eq_2
        numeral_3_eq_3)
  moreover obtain r2 where "req 2 = Inr r2" using r by blast
  ultimately show ?thesis by auto
qed

theorem retry_exhaustion_witness:
  "\<exists>st. request_with_retry two_retries draws_zero service_unavailable
           = (Inr \<lparr>status_code = 503, content = ''2''\<rparr>, st) \<and> calls st = 3"
proof -
  have 1: "max_retries two_retries = 2" by (simp add: two_retries_def default_retry_config_def)
  have 2: "503 \<in> set (retry_on_status two_retries)"
    by (simp add: two_retries_def default_retry_config_def)
  have 3: "backoff_factor two_retries = Finite (1 / 2)"
    by (simp add: two_retries_def default_retry_config_def)
  have 4: "\<exists>body. service_unavailable n = Inr \<lparr>status_code = 503, content = body\<rparr>" for n
    by (simp add: service_unavailable_def)
  have 5: "service_unavailable 2 = Inr \<lparr>status_code = 503, content = ''2''\<rparr>"
    by (simp add: service_unavailable_def str_int_def str_nat.simps digit_char_def)
  have 6: "(0::real) \<le> 1 / 2" "(1::real) / 2 \<le> 10 ^ 9" by simp_all
  show ?thesis
    using retry_exhaustion_returns_last_response [where cfg = two_retries
        and req = service_unavailable and jit = draws_zero and b = "1 / 2", OF 1 2 3 6 4] 5
    by auto
qed

subsection \<open>Classification of responses and exceptions\<close>












subsection \<open>The backoff delay\<close>

text \<open>
  C9, as stated, fails: the delay is computed in floats. \<^verbatim>\<open>2 ** attempt\<close> is an exact
  integer, and the product with the float backoff factor first converts it to a float. At
  attempt 1024 the conversion raises OverflowError, here for the default configuration
  (backoff factor 0.5), so no delay is computed at all.
\<close>

theorem backoff_overflows_at_1024:
  "get_backoff_time default_retry_config 0 1024 = Inl OverflowError"
  by (rule get_backoff_time_overflow) simp

text \<open>
  Below the normal range the jitter factor is lost as well: the least subnormal times the
  factor \<open>0.5\<close> (draw 0) rounds to zero, which is the delay times 0.
\<close>

lemma least_subnormal_delay:
  fixes u :: real
  assumes "u = 2 powi (- 1074)"
  shows "get_backoff_time (default_retry_config\<lparr>backoff_factor := Finite u\<rparr>) 0 0
     = Inr (Finite 0)"
proof -
  have u0: "0 < u" unfolding assms by (rule two_powi_pos)
  have "u = of_int 1 * 2 powi (- 1074)" unfolding assms by (simp only: of_int_1 mult_1)
  then have bfix: "round_double u = u" by (rule round_double_exact) simp_all
  have "u \<le> 2 powi 0" unfolding assms by (rule power_int_increasing) simp_all
  then have "\<bar>u * 2 ^ 0\<bar> \<le> DBL_MAX" using one_le_DBL_MAX u0 by simp
  then have "float_times (Finite u) (Inl (2 ^ 0)) = Inr (Finite (u * 2 ^ 0))"
    using bfix by (intro float_times_two_power) simp_all
  then have delay: "float_times (Finite u) (Inl 1) = Inr (Finite u)" by simp
  have z: "to_float 0 = Finite 0"
    using DBL_MAX_pos by (intro to_float_exact) simp_all
  have h: "to_float (1 / 2) = Finite (1 / 2)"
    using one_le_DBL_MAX by (intro to_float_exact) simp_all
  have "round_double (u * (1 / 2)) = 0" using assms refl by (rule half_of_least_subnormal)
  then have r: "to_float (u * (1 / 2)) = Finite 0"
    using DBL_MAX_pos by (simp add: to_float_def Let_def)
  have d: "random_uniform 0 = 0" by (simp add: random_uniform_def)
  have t: "two_to_the 0 = Inr (Inl 1)" by (simp add: two_to_the_def)
  show ?thesis
    using r by (simp add: get_backoff_time_def default_retry_config_def t delay d z h)
qed

lemma subnormal_delay_halves_to_zero:
  "get_backoff_time (default_retry_config\<lparr>backoff_factor := Finite (2 powi (- 1074))\<rparr>) 0 0
     = Inr (Finite 0)"
  by (rule least_subnormal_delay) (rule refl)

text \<open>
  C9, amended. Let the backoff factor be a float \<open>b > 0\<close> and the attempt index be between
  0 and 1023, with \<open>b * 2 ^ attempt\<close> at most the largest float. Without jitter the delay is
  exactly \<open>b * 2 ^ attempt\<close>. With jitter, and \<open>b\<close> at least \<open>2 powi (- 1021)\<close>, it is that value
  times a factor in \<open>[1/2, 1]\<close>. In both cases a delay is returned and it is not negative.
  Without jitter, when the next attempt is in range too, its delay is strictly larger.
\<close>

theorem backoff_time:
  assumes "backoff_factor cfg = Finite b" and "is_double b" and "0 < b"
    and "0 \<le> attempt" and "attempt \<le> 1023" and "b * 2 ^ nat attempt \<le> DBL_MAX"
  shows "(\<not> jitter cfg \<longrightarrow>
            get_backoff_time cfg raw attempt = Inr (Finite (b * 2 ^ nat attempt)))
     \<and> (jitter cfg \<and> 2 powi (- 1021) \<le> b \<longrightarrow>
            (\<exists>f. 1 / 2 \<le> f \<and> f \<le> 1
               \<and> get_backoff_time cfg raw attempt = Inr (Finite (b * 2 ^ nat attempt * f))))
     \<and> (\<exists>d. get_backoff_time cfg raw attempt = Inr (Finite d) \<and> 0 \<le> d)
     \<and> (\<not> jitter cfg \<and> attempt + 1 \<le> 1023 \<and> b * 2 ^ nat (attempt + 1) \<le> DBL_MAX \<longrightarrow>
            (\<exists>d d'. get_backoff_time cfg raw attempt = Inr (Finite d)
               \<and> get_backoff_time cfg raw' (attempt + 1) = Inr (Finite d') \<and> d < d'))"
proof -
  have bfix: "round_double b = b" using assms(2) by (simp add: is_double_def)
  have b0: "0 \<le> b" using assms(3) by simp
  have v0: "0 < b * 2 ^ nat attempt" using assms(3) by simp
  then have av: "\<bar>b * 2 ^ nat attempt\<bar> \<le> DBL_MAX" using assms(6) by simp
  have vfix: "round_double (b * 2 ^ nat attempt) = b * 2 ^ nat attempt"
    using bfix by (rule round_double_times_two_power)
  have 1: "get_backoff_time cfg raw attempt = Inr (Finite (b * 2 ^ nat attempt))"
    if "\<not> jitter cfg"
    using assms(1) bfix that assms(4,5) av by (rule get_backoff_time_no_jitter)
  have 2: "\<exists>f. 1 / 2 \<le> f \<and> f \<le> 1
      \<and> get_backoff_time cfg raw attempt = Inr (Finite (b * 2 ^ nat attempt * f))"
    if "jitter cfg" "2 powi (- 1021) \<le> b"
    using assms(1) bfix that assms(4,5,6) by (rule get_backoff_time_jitter)
  have 3: "\<exists>d. get_backoff_time cfg raw attempt = Inr (Finite d) \<and> 0 \<le> d"
    using get_backoff_time_bounded [OF assms(1) b0 assms(4,5) order_refl vfix assms(6), of raw]
    by blast
  have 4: "\<exists>d d'. get_backoff_time cfg raw attempt = Inr (Finite d)
      \<and> get_backoff_time cfg raw' (attempt + 1) = Inr (Finite d') \<and> d < d'"
    if j: "\<not> jitter cfg" and a: "attempt + 1 \<le> 1023"
      and m: "b * 2 ^ nat (attempt + 1) \<le> DBL_MAX"
  proof -
    have z: "0 \<le> attempt + 1" using assms(4) by simp
    have "0 < b * 2 ^ nat (attempt + 1)" using assms(3) by simp
    then have "\<bar>b * 2 ^ nat (attempt + 1)\<bar> \<le> DBL_MAX" using m by simp
    then have n: "get_backoff_time cfg raw' (attempt + 1) = Inr (Finite (b * 2 ^ nat (attempt + 1)))"
      using assms(1) bfix j z a by (intro get_backoff_time_no_jitter)
    have "nat (attempt + 1) = Suc (nat attempt)" using assms(4) by simp
    then have "b * 2 ^ nat attempt < b * 2 ^ nat (attempt + 1)" using v0 by simp
    then show ?thesis using 1 [OF j] n by blast
  qed
  show ?thesis using 1 2 3 4 by blast
qed

theorem backoff_time_witness:
  "get_backoff_time one_retry_no_jitter 0 3 = Inr (Finite 4)
   \<and> (\<exists>d d'. get_backoff_time one_retry_no_jitter 0 3 = Inr (Finite d)
         \<and> get_backoff_time one_retry_no_jitter 0 4 = Inr (Finite d') \<and> 0 \<le> d \<and> d < d')
   \<and> (\<exists>f. 1 / 2 \<le> f \<and> f \<le> 1 \<and> get_backoff_time two_retries 7 3 = Inr (Finite (4 * f)))"
proof -
  have b: "backoff_factor one_retry_no_jitter = Finite (1 / 2)"
    by (simp add: one_retry_no_jitter_def default_retry_config_def)
  have j: "\<not> jitter one_retry_no_jitter"
    by (simp add: one_retry_no_jitter_def default_retry_config_def)
  have p: "(0::real) < 1 / 2" by simp
  have z: "(0::int) \<le> 3" "(3::int) \<le> 1023" by simp_all
  have "(4::real) \<le> 2 ^ 3" by simp
  also have "\<dots> \<le> DBL_MAX" by (rule two_power_le_DBL_MAX) simp
  finally have m: "(1::real) / 2 * 2 ^ nat 3 \<le> DBL_MAX" by simp
  have "(1::real) / 2 * 2 ^ nat (3 + 1) \<le> 2 ^ 3" by simp
  also have "\<dots> \<le> DBL_MAX" by (rule two_power_le_DBL_MAX) simp
  finally have m': "(1::real) / 2 * 2 ^ nat (3 + 1) \<le> DBL_MAX" .
  note t = backoff_time [OF b is_double_half p z m, of 0 0]
  have 1: "get_backoff_time one_retry_no_jitter 0 3 = Inr (Finite 4)"
    using t [THEN conjunct1] j by simp
  have "\<exists>d d'. get_backoff_time one_retry_no_jitter 0 3 = Inr (Finite d)
      \<and> get_backoff_time one_retry_no_jitter 0 (3 + 1) = Inr (Finite d') \<and> d < d'"
    using t [THEN conjunct2, THEN conjunct2, THEN conjunct2] j m' by simp
  then have 2: "\<exists>d d'. get_backoff_time one_retry_no_jitter 0 3 = Inr (Finite d)
      \<and> get_backoff_time one_retry_no_jitter 0 4 = Inr (Finite d') \<and> 0 \<le> d \<and> d < d'"
    using 1 by auto
  have b': "backoff_factor two_retries = Finite (1 / 2)"
    by (simp add: two_retries_def default_retry_config_def)
  have j': "jitter two_retries"
    by (simp add: two_retries_def default_retry_config_def)
  have "(2::real) powi (- 1021) \<le> 2 powi (- 1)"
    by (rule power_int_increasing) simp_all
  then have lo: "(2::real) powi (- 1021) \<le> 1 / 2" by (simp add: power_int_minus)
  have "\<exists>f. 1 / 2 \<le> f \<and> f \<le> 1
      \<and> get_backoff_time two_retries 7 3 = Inr (Finite (1 / 2 * 2 ^ nat 3 * f))"
    using backoff_time [OF b' is_double_half p z m, of 7 0, THEN conjunct2, THEN conjunct1]
      j' lo by (rule mp [OF _ conjI])
  then have 3: "\<exists>f. 1 / 2 \<le> f \<and> f \<le> 1 \<and> get_backoff_time two_retries 7 3 = Inr (Finite (4 * f))"
    by simp
  show ?thesis using 1 2 3 by (intro conjI)
qed

section \<open>Profile generation\<close>

lemma choice_total: "xs \<noteq> [] \<Longrightarrow> \<exists>x. choice raw xs = Inr x"
  by (simp add: choice_nonempty)

lemma PROFILES_not_Nil: "PROFILES \<noteq> []"
  by (simp add: PROFILES_def)

lemma get_random_total: "\<exists>p. get_random raw plat = Inr p"
  using choice_total [OF PROFILES_not_Nil] by (simp add: get_random_def Let_def choice_total)

lemma get_chrome_total: "\<exists>p. get_chrome raw plat = Inr p"
  using get_random_total by (simp add: get_chrome_def Let_def choice_total)

lemma get_brave_total: "\<exists>p. get_brave raw plat = Inr p"
  using get_random_total by (simp add: get_brave_def Let_def choice_total)

lemma get_edge_total: "\<exists>p. get_edge raw plat = Inr p"
  using get_random_total by (simp add: get_edge_def Let_def choice_total)

lemma get_safari_total: "\<exists>p. get_safari raw plat = Inr p"
  using get_random_total by (simp add: get_safari_def Let_def choice_total)

lemma get_version_total: "\<exists>p. get_version raw v plat = Inr p"
  using get_random_total by (simp add: get_version_def Let_def choice_total)

lemma choose_platform_total:
  "\<exists>q. choices_one raw (map fst PLATFORM_WEIGHTS) (map snd PLATFORM_WEIGHTS) = Inr q"
  by (simp add: choices_one_def PLATFORM_WEIGHTS_def Let_def)

lemma get_weighted_random_total: "\<exists>p. get_weighted_random raw raw' = Inr p"
proof -
  obtain q where "choices_one raw (map fst PLATFORM_WEIGHTS) (map snd PLATFORM_WEIGHTS) = Inr q"
    using choose_platform_total by blast
  then show ?thesis
    using get_random_total [of raw' "Some q"] by (simp add: get_weighted_random_def Let_def)
qed

lemma select_ua_total: "\<exists>info. select_ua d plat browser version = Inr info"
proof (cases browser)
  case None
  then show ?thesis
    using get_random_total get_weighted_random_total
    by (cases plat; cases version) (simp_all add: select_ua_def)
next
  case (Some b)
  then show ?thesis
    using get_random_total get_chrome_total get_brave_total get_edge_total get_safari_total
      get_version_total
    by (cases version) (simp_all add: select_ua_def)
qed

lemma browser_info_generate_total: "\<exists>bi. browser_info_generate d plat browser version = Inr bi"
proof -
  obtain info where "select_ua d plat browser version = Inr info"
    using select_ua_total by blast
  then show ?thesis by (simp add: browser_info_generate_def Let_def)
qed

lemma browser_info_generate_fields:
  assumes "browser_info_generate d plat browser version = Inr bi"
  shows "bi_browser_type bi = detect_browser_type (bi_user_agent bi) (bi_sec_ch_ua bi)"
    and "bi_version bi = extract_version (bi_user_agent bi) (bi_browser_type bi)"
proof -
  obtain info where i: "select_ua d plat browser version = Inr info"
    using select_ua_total by blast
  then have "bi = \<lparr>bi_version = extract_version (ua info) (detect_browser_type (ua info) (ua_sec_ch_ua info)),
               bi_browser_type = detect_browser_type (ua info) (ua_sec_ch_ua info),
               bi_user_agent = ua info,
               bi_sec_ch_ua = ua_sec_ch_ua info,
               bi_sec_ch_ua_mobile = (if ua_mobile info then ''?1'' else ''?0''),
               bi_platform = ua_platform info,
               bi_mobile = ua_mobile info\<rparr>"
    using assms by (simp add: browser_info_generate_def Let_def)
  then show "bi_browser_type bi = detect_browser_type (bi_user_agent bi) (bi_sec_ch_ua bi)"
    and "bi_version bi = extract_version (bi_user_agent bi) (bi_browser_type bi)"
    by simp_all
qed

lemma generate_settings_total: "\<exists>s. generate_settings d bt = Inr s"
  by (simp add: generate_settings_def Let_def)

lemma akamai_generate_total: "\<exists>a. akamai_generate d bt = Inr a"
proof -
  obtain s where "generate_settings d bt = Inr s"
    using generate_settings_total by blast
  moreover have "WINDOW_UPDATE_VALUES \<noteq> []" "PRIORITY_VALUES \<noteq> []" "PSEUDO_HEADER_ORDERS \<noteq> []"
    by (simp_all add: WINDOW_UPDATE_VALUES_def PRIORITY_VALUES_def PSEUDO_HEADER_ORDERS_def)
  ultimately show ?thesis
    by (simp add: akamai_generate_def choice_nonempty)
qed

lemma get_extra_fp_total: "\<exists>x. get_extra_fp raw bt = Inr x"
  by (simp add: get_extra_fp_def Let_def)

lemma assemble_profile_total: "\<exists>p. assemble_profile d bi = Inr p"
proof -
  obtain a where "akamai_generate (akamai_raw d) (bi_browser_type bi) = Inr a"
    using akamai_generate_total by blast
  moreover obtain x where "get_extra_fp (stream_weight_raw d) (bi_browser_type bi) = Inr x"
    using get_extra_fp_total by blast
  ultimately show ?thesis by (simp add: assemble_profile_def Let_def)
qed

lemma assemble_profile_fields:
  assumes "assemble_profile d bi = Inr p"
  shows "user_agent p = bi_user_agent bi" and "sec_ch_ua p = bi_sec_ch_ua bi"
    and "browser_type p = bi_browser_type bi"
    and "ja3 p = ja3_generate (shuffle_raw d) (bi_version bi) (bi_browser_type bi)"
    and "akamai_generate (akamai_raw d) (bi_browser_type bi) = Inr (akamai p)"
    and "get_extra_fp (stream_weight_raw d) (bi_browser_type bi) = Inr (extra_fp p)"
proof -
  obtain a where a: "akamai_generate (akamai_raw d) (bi_browser_type bi) = Inr a"
    using akamai_generate_total by blast
  obtain x where x: "get_extra_fp (stream_weight_raw d) (bi_browser_type bi) = Inr x"
    using get_extra_fp_total by blast
  have p: "p = \<lparr>ja3 = ja3_generate (shuffle_raw d) (bi_version bi) (bi_browser_type bi),
               akamai = a, extra_fp = x,
               user_agent = bi_user_agent bi,
               sec_ch_ua = bi_sec_ch_ua bi,
               sec_ch_ua_mobile = Some (bi_sec_ch_ua_mobile bi),
               sec_ch_ua_platform = Some (CHR 0x22 # bi_platform bi @ [CHR 0x22]),
               accept_language = None,
               browser_type = bi_browser_type bi,
               platform = bi_platform bi,
               mobile = bi_mobile bi\<rparr>"
    using assms a x by (simp add: assemble_profile_def Let_def)
  show "user_agent p = bi_user_agent bi" and "sec_ch_ua p = bi_sec_ch_ua bi"
    and "browser_type p = bi_browser_type bi"
    and "ja3 p = ja3_generate (shuffle_raw d) (bi_version bi) (bi_browser_type bi)"
    and "akamai_generate (akamai_raw d) (bi_browser_type bi) = Inr (akamai p)"
    and "get_extra_fp (stream_weight_raw d) (bi_browser_type bi) = Inr (extra_fp p)"
    using a x by (simp_all add: p)
qed

lemma generate_profile_total: "\<exists>p. generate_profile d plat browser version = Inr p"
proof -
  obtain bi where "browser_info_generate (identity d) plat browser version = Inr bi"
    using browser_info_generate_total by blast
  then show ?thesis
    using assemble_profile_total [of d bi] by (simp add: generate_profile_def)
qed

text \<open>
  C7. Whatever is forced and whatever is drawn, profile generation returns a profile, and
  the browser type re-derived from the profile's own user agent and client hint is the
  browser type of the identity: the one stored in the profile and the one handed to the
  JA3 generator, to the Akamai generator and to the extra options.
\<close>

theorem profile_identity_consistent:
  "\<exists>bi p. browser_info_generate (identity d) plat browser version = Inr bi
     \<and> generate_profile d plat browser version = Inr p
     \<and> detect_browser_type (user_agent p) (sec_ch_ua p) = bi_browser_type bi
     \<and> browser_type p = bi_browser_type bi
     \<and> ja3 p = ja3_generate (shuffle_raw d) (bi_version bi) (bi_browser_type bi)
     \<and> akamai_generate (akamai_raw d) (bi_browser_type bi) = Inr (akamai p)
     \<and> get_extra_fp (stream_weight_raw d) (bi_browser_type bi) = Inr (extra_fp p)"
proof -
  obtain bi where bi: "browser_info_generate (identity d) plat browser version = Inr bi"
    using browser_info_generate_total by blast
  obtain p where p: "assemble_profile d bi = Inr p"
    using assemble_profile_total by blast
  have g: "generate_profile d plat browser version = Inr p"
    using bi p by (simp add: generate_profile_def)
  have "detect_browser_type (user_agent p) (sec_ch_ua p) = bi_browser_type bi"
    using browser_info_generate_fields(1) [OF bi] assemble_profile_fields(1,2) [OF p] by simp
  then show ?thesis
    using bi g assemble_profile_fields(3-6) [OF p] by blast
qed

subsection \<open>A concrete client\<close>

lemma brave_ua:
  \<open>select_ua (identity some_draws) (Some ''Windows'') (Some ''brave'') None =
     Inr \<lparr>ua = ''Mozilla/5.0 (Windows NT 10.0; Win64; x64) AppleWebKit/537.36 (KHTML, like Gecko) Chrome/142.0.0.0 Safari/537.36'',
           ua_sec_ch_ua = Some ''"Brave";v="142", "Chromium";v="142", "Not/A)Brand";v="24"'',
           ua_platform = ''Windows'', ua_mobile = False\<rparr>\<close>
  by code_simp

lemma brave_detect:
  \<open>detect_browser_type ''Mozilla/5.0 (Windows NT 10.0; Win64; x64) AppleWebKit/537.36 (KHTML, like Gecko) Chrome/142.0.0.0 Safari/537.36''
       (Some ''"Brave";v="142", "Chromium";v="142", "Not/A)Brand";v="24"'') = ''brave''\<close>
  by code_simp

lemma brave_version:
  \<open>extract_version ''Mozilla/5.0 (Windows NT 10.0; Win64; x64) AppleWebKit/537.36 (KHTML, like Gecko) Chrome/142.0.0.0 Safari/537.36''
       ''brave'' = 142\<close>
  by code_simp

lemma brave_ja3:
  "ja3_generate draws_zero 142 ''brave'' =
     ''771,4865-4866-4867-49195-49199-49196-49200-52393-52392-49171-49172-156-157-47-53,5-10-11-13-16-18-23-27-35-43-45-51-65037-65281-17613-0,4588-29-23-24,0''"
  by code_simp

lemma brave_akamai:
  "akamai_generate akamai_draws_a ''brave'' = Inr ''1:65536;2:0;3:500;4:6291456;6:262144|15859710|3|m,p,a,s''"
  by (simp add: akamai_generate_def generate_settings_def randbelow_def random_uniform_def
      akamai_draws_a_def WINDOW_UPDATE_VALUES_def PRIORITY_VALUES_def PSEUDO_HEADER_ORDERS_def
      str_int_def str_nat.simps digit_char_def)

lemma brave_extra:
  "get_extra_fp 2 ''brave'' =
     Inr \<lparr>tls_signature_algorithms = CHROME_SIGNATURE_ALGORITHMS,
         tls_grease = True, tls_permute_extensions = False,
         tls_cert_compression = ''brotli'',
         http2_stream_weight = 240, http2_stream_exclusive = 1\<rparr>"
  by (simp add: get_extra_fp_def SIGNATURE_ALGORITHMS_def randbelow_def)

lemma brave_generate:
  "generate_profile some_draws (Some ''Windows'') (Some ''brave'') None = Inr brave_profile"
proof -
  have d: "shuffle_raw some_draws = draws_zero" "akamai_raw some_draws = akamai_draws_a"
    "stream_weight_raw some_draws = 2"
    by (simp_all add: some_draws_def)
  show ?thesis
    unfolding generate_profile_def browser_info_generate_def brave_ua
    by (simp add: brave_detect brave_version assemble_profile_def d brave_ja3 brave_akamai
        brave_extra brave_profile_def)
qed

lemma brave_client_init:
  "http_client_init some_draws 30 False (Some ''Windows'') (Some ''brave'') None None
     = Inr brave_client"
  by (simp add: http_client_init_def brave_generate brave_client_def)

section \<open>The header composer and the request counter\<close>

lemma header_set_item:
  "header (set_item k v hs) k' = (if k' = k then Some v else header hs k')"
  by (simp add: header_def set_item_def update_conv')

lemma header_dict_update_other:
  "k \<notin> fst ` set e \<Longrightarrow> header (dict_update hs e) k = header hs k"
proof (induction e arbitrary: hs)
  case Nil
  then show ?case by (simp add: dict_update_def)
next
  case (Cons kv e)
  have "header (dict_update (set_item (fst kv) (snd kv) hs) e) k
        = header (set_item (fst kv) (snd kv) hs) k"
    using Cons.prems by (intro Cons.IH) simp
  moreover have "fst kv \<noteq> k" using Cons.prems by auto
  ultimately show ?case by (simp add: dict_update_def header_set_item)
qed

lemma header_dict_update_single:
  "header (dict_update hs [(k, v)]) k = Some v"
  by (simp add: dict_update_def header_set_item)

lemma profile_of_total:
  "\<exists>p c'. profile_of d c = Inr (p, c') \<and> request_count c' = request_count c
      \<and> cached_profile c' = Some p
      \<and> forced_platform c' = forced_platform c \<and> forced_browser c' = forced_browser c
      \<and> forced_browser_version c' = forced_browser_version c
      \<and> randomize_per_request c' = randomize_per_request c"
proof (cases "cached_profile c")
  case None
  obtain p where "generate_profile d (forced_platform c) (forced_browser c) (forced_browser_version c) = Inr p"
    using generate_profile_total by blast
  with None show ?thesis by (simp add: profile_of_def)
next
  case (Some p)
  then show ?thesis by (simp add: profile_of_def)
qed

lemma randomize_total:
  "\<exists>p c'. randomize d c = Inr (p, c') \<and> request_count c' = request_count c
      \<and> cached_profile c' = Some p"
proof -
  obtain p where "generate_profile d (forced_platform c) (forced_browser c) (forced_browser_version c) = Inr p"
    using generate_profile_total by blast
  then show ?thesis by (simp add: randomize_def)
qed

lemma get_headers_total:
  "\<exists>hs c'. get_headers d c extra rt = Inr (hs, c') \<and> request_count c' = request_count c + 1
      \<and> cached_profile c' \<noteq> None
      \<and> (\<not> sets_key extra ''cache-control'' \<longrightarrow>
           header hs ''cache-control''
             = Some (if request_count c = 0 then ''no-cache'' else ''max-age=0''))
      \<and> (\<forall>v. extra = Some [(''cache-control'', v)] \<longrightarrow> header hs ''cache-control'' = Some v)"
proof -
  obtain p c1 where p: "profile_of d c = Inr (p, c1)" and n: "request_count c1 = request_count c"
    and cp: "cached_profile c1 = Some p"
    using profile_of_total by blast
  show ?thesis
  proof (cases extra)
    case None
    show ?thesis
      unfolding get_headers_def p
      by (simp add: None n cp Let_def header_set_item sets_key_def)
  next
    case (Some e)
    show ?thesis
      unfolding get_headers_def p
      by (auto simp add: Some n cp Let_def header_set_item sets_key_def header_dict_update_other
          header_dict_update_single)
  qed
qed

lemma compose_all_cache_control:
  assumes "0 \<le> request_count c"
    and "\<forall>r \<in> set reqs. \<not> sets_key (fst r) ''cache-control''"
  shows "\<exists>hss c'. compose_all d c reqs = Inr (hss, c') \<and> length hss = length reqs
           \<and> request_count c' = request_count c + int (length reqs)
           \<and> (\<forall>i < length reqs. header (hss ! i) ''cache-control''
                 = Some (if request_count c = 0 \<and> i = 0 then ''no-cache'' else ''max-age=0''))"
  using assms
proof (induction reqs arbitrary: c)
  case Nil
  then show ?case by simp
next
  case (Cons r reqs)
  obtain hs c1 where g: "get_headers d c (fst r) (snd r) = Inr (hs, c1)"
    and n: "request_count c1 = request_count c + 1"
    and h: "header hs ''cache-control''
              = Some (if request_count c = 0 then ''no-cache'' else ''max-age=0'')"
    using get_headers_total [of d c "fst r" "snd r"] Cons.prems(2) by auto
  have pos: "0 \<le> request_count c1" "request_count c1 \<noteq> 0"
    using n Cons.prems(1) by simp_all
  obtain hss c2 where r: "compose_all d c1 reqs = Inr (hss, c2)"
    and l: "length hss = length reqs"
    and m: "request_count c2 = request_count c1 + int (length reqs)"
    and t: "\<forall>i < length reqs. header (hss ! i) ''cache-control'' = Some ''max-age=0''"
    using Cons.IH [OF pos(1)] Cons.prems(2) pos(2) by auto
  have "compose_all d c (r # reqs) = Inr (hs # hss, c2)"
    using g r by simp
  moreover have "request_count c2 = request_count c + int (length (r # reqs))"
    using m n by simp
  moreover have "header ((hs # hss) ! i) ''cache-control''
        = Some (if request_count c = 0 \<and> i = 0 then ''no-cache'' else ''max-age=0'')"
    if "i < length (r # reqs)" for i
  proof (cases i)
    case 0
    then show ?thesis using h by simp
  next
    case (Suc j)
    then have "j < length reqs" using that by simp
    then show ?thesis using t Suc by simp
  qed
  ultimately show ?case using l by auto
qed

text \<open>
  C6, amended. On a client whose request counter is at its initial value 0, for requests
  whose overrides do not set \<^verbatim>\<open>cache-control\<close> themselves, the first composed header set
  maps \<^verbatim>\<open>cache-control\<close> to \<^verbatim>\<open>no-cache\<close> and every later one to \<^verbatim>\<open>max-age=0\<close>. Every call of
  the composer, on any client and with any arguments, returns and advances the counter by
  exactly one.
\<close>

theorem first_request_cache_control:
  assumes "request_count c = 0"
    and "\<forall>r \<in> set reqs. \<not> sets_key (fst r) ''cache-control''"
  shows "(\<exists>hss c'. compose_all d c reqs = Inr (hss, c') \<and> length hss = length reqs
            \<and> request_count c' = int (length reqs)
            \<and> (\<forall>i < length reqs. header (hss ! i) ''cache-control''
                  = Some (if i = 0 then ''no-cache'' else ''max-age=0'')))
       \<and> (\<exists>hs c1. get_headers d c0 extra rt = Inr (hs, c1)
            \<and> request_count c1 = request_count c0 + 1)"
proof -
  have "0 \<le> request_count c" using assms(1) by simp
  from compose_all_cache_control [OF this assms(2), of d]
  have "\<exists>hss c'. compose_all d c reqs = Inr (hss, c') \<and> length hss = length reqs
            \<and> request_count c' = int (length reqs)
            \<and> (\<forall>i < length reqs. header (hss ! i) ''cache-control''
                  = Some (if i = 0 then ''no-cache'' else ''max-age=0''))"
    using assms(1) by simp
  moreover have "\<exists>hs c1. get_headers d c0 extra rt = Inr (hs, c1)
            \<and> request_count c1 = request_count c0 + 1"
    using get_headers_total [of d c0 extra rt] by blast
  ultimately show ?thesis by blast
qed

theorem first_request_cache_control_witness:
  "cache_controls other_draws brave_client
     [(None, ''navigate''), (Some accept_override, ''api''), (None, ''api'')]
     = Inr [Some ''no-cache'', Some ''max-age=0'', Some ''max-age=0'']"
proof -
  let ?reqs = "[(None, ''navigate''), (Some accept_override, ''api''), (None, ''api'')]"
  have 0: "request_count brave_client = 0" by (simp add: brave_client_def)
  have 1: "\<forall>r \<in> set ?reqs. \<not> sets_key (fst r) ''cache-control''"
    by (simp add: sets_key_def accept_override_def)
  obtain hss c' where c: "compose_all other_draws brave_client ?reqs = Inr (hss, c')"
    and l: "length hss = length ?reqs"
    and h: "\<forall>i < length ?reqs. header (hss ! i) ''cache-control''
                  = Some (if i = 0 then ''no-cache'' else ''max-age=0'')"
    using first_request_cache_control [OF 0 1, of other_draws, THEN conjunct1] by blast
  obtain a b e where s: "hss = [a, b, e]"
    using l by (auto simp: length_Suc_conv)
  have "header (hss ! 0) ''cache-control'' = Some ''no-cache''"
    "header (hss ! 1) ''cache-control'' = Some ''max-age=0''"
    "header (hss ! 2) ''cache-control'' = Some ''max-age=0''"
    using h by simp_all
  then have "header a ''cache-control'' = Some ''no-cache''"
    "header b ''cache-control'' = Some ''max-age=0''"
    "header e ''cache-control'' = Some ''max-age=0''"
    by (simp_all add: s)
  then show ?thesis
    unfolding cache_controls_def c by (simp add: s)
qed

text \<open>
  C6, as stated, fails when the caller's overrides set \<^verbatim>\<open>cache-control\<close>: the overrides are
  merged last, so on a fresh client neither the first header set maps it to
  \<^verbatim>\<open>no-cache\<close> nor the second to \<^verbatim>\<open>max-age=0\<close>.
\<close>

theorem override_sets_cache_control:
  "cache_controls other_draws brave_client
     [(Some cache_override, ''navigate''), (Some cache_override, ''api'')]
     = Inr [Some ''no-store'', Some ''no-store'']"
proof -
  obtain h1 c1 where 1: "get_headers other_draws brave_client (Some cache_override) ''navigate'' = Inr (h1, c1)"
    and a: "header h1 ''cache-control'' = Some ''no-store''"
    using get_headers_total [of other_draws brave_client "Some cache_override" "''navigate''"]
    by (auto simp: cache_override_def)
  obtain h2 c2 where 2: "get_headers other_draws c1 (Some cache_override) ''api'' = Inr (h2, c2)"
    and b: "header h2 ''cache-control'' = Some ''no-store''"
    using get_headers_total [of other_draws c1 "Some cache_override" "''api''"]
    by (auto simp: cache_override_def)
  show ?thesis
    by (simp add: cache_controls_def 1 2 a b)
qed

section \<open>Profile regeneration\<close>

lemma request_headers_regenerating:
  assumes "randomize_per_request c" and "request_count c \<noteq> 0"
    and "\<not> sets_key extra ''cache-control''"
  shows "\<exists>hs c'. request_headers d d' c extra False rt = Inr (hs, c')
           \<and> header hs ''cache-control'' = Some ''max-age=0''
           \<and> request_count c' = request_count c + 1"
proof -
  obtain p c1 where r: "randomize d c = Inr (p, c1)" and n: "request_count c1 = request_count c"
    using randomize_total by blast
  obtain hs c2 where g: "get_headers d' c1 extra rt = Inr (hs, c2)"
    and m: "request_count c2 = request_count c1 + 1"
    and h: "header hs ''cache-control'' = Some ''max-age=0''"
    using get_headers_total [of d' c1 extra rt] assms(2,3) n by auto
  have "request_headers d d' c extra False rt = Inr (hs, c2)"
    using assms(1) r g by (cases extra) (simp_all add: request_headers_def)
  then show ?thesis using h m n by simp
qed

text \<open>
  C10, amended. Regenerating the profile returns and leaves the request counter as it
  was, on any client. So once a header set has been composed on a client (counter from 0
  on), a regeneration, by \<^verbatim>\<open>randomize\<close> or by the per-request mode of \<^verbatim>\<open>_make_request\<close>, does
  not bring the first-request state back: the next composed header set maps
  \<^verbatim>\<open>cache-control\<close> to \<^verbatim>\<open>max-age=0\<close>, unless the caller's overrides set that header.
\<close>

theorem regeneration_keeps_request_count:
  assumes "0 \<le> request_count c" and "\<not> sets_key extra ''cache-control''"
  shows "(\<exists>p c'. randomize d2 c0 = Inr (p, c') \<and> request_count c' = request_count c0)
     \<and> (\<exists>h1 c1 p c2 h3 c3.
           get_headers d1 c e1 rt1 = Inr (h1, c1)
         \<and> randomize d2 c1 = Inr (p, c2) \<and> request_count c2 = request_count c1
         \<and> get_headers d3 c2 extra rt = Inr (h3, c3)
         \<and> header h3 ''cache-control'' = Some ''max-age=0'')
     \<and> (\<exists>h1 c1 h3 c3.
           get_headers d1 c e1 rt1 = Inr (h1, c1)
         \<and> request_headers d2 d3 (c1\<lparr>randomize_per_request := True\<rparr>) extra False rt = Inr (h3, c3)
         \<and> header h3 ''cache-control'' = Some ''max-age=0''
         \<and> request_count c3 = request_count c1 + 1)"
proof -
  have frame: "\<exists>p c'. randomize d2 c0 = Inr (p, c') \<and> request_count c' = request_count c0"
    using randomize_total [of d2 c0] by blast
  obtain h1 c1 where g1: "get_headers d1 c e1 rt1 = Inr (h1, c1)"
    and n1: "request_count c1 = request_count c + 1"
    using get_headers_total [of d1 c e1 rt1] by blast
  have nz: "request_count c1 \<noteq> 0" using n1 assms(1) by simp
  obtain p c2 where r: "randomize d2 c1 = Inr (p, c2)" and n2: "request_count c2 = request_count c1"
    using randomize_total [of d2 c1] by blast
  obtain h3 c3 where g3: "get_headers d3 c2 extra rt = Inr (h3, c3)"
    and h3: "header h3 ''cache-control'' = Some ''max-age=0''"
    using get_headers_total [of d3 c2 extra rt] assms(2) n2 nz by auto
  have second: "\<exists>h1 c1 p c2 h3 c3.
           get_headers d1 c e1 rt1 = Inr (h1, c1)
         \<and> randomize d2 c1 = Inr (p, c2) \<and> request_count c2 = request_count c1
         \<and> get_headers d3 c2 extra rt = Inr (h3, c3)
         \<and> header h3 ''cache-control'' = Some ''max-age=0''"
    using g1 r n2 g3 h3 by blast
  obtain h4 c4 where "request_headers d2 d3 (c1\<lparr>randomize_per_request := True\<rparr>) extra False rt = Inr (h4, c4)"
    and "header h4 ''cache-control'' = Some ''max-age=0''"
    and "request_count c4 = request_count (c1\<lparr>randomize_per_request := True\<rparr>) + 1"
    using request_headers_regenerating [of "c1\<lparr>randomize_per_request := True\<rparr>" extra d2 d3 rt]
      nz assms(2) by auto
  then have third: "\<exists>h1 c1 h3 c3.
           get_headers d1 c e1 rt1 = Inr (h1, c1)
         \<and> request_headers d2 d3 (c1\<lparr>randomize_per_request := True\<rparr>) extra False rt = Inr (h3, c3)
         \<and> header h3 ''cache-control'' = Some ''max-age=0''
         \<and> request_count c3 = request_count c1 + 1"
    using g1 by auto
  show ?thesis using frame second third by blast
qed

theorem regeneration_witness:
  "cache_control_after_regeneration other_draws brave_client (Some accept_override)
     = Inr (Some ''max-age=0'')"
proof -
  have 0: "0 \<le> request_count brave_client" by (simp add: brave_client_def)
  have 1: "\<not> sets_key (Some accept_override) ''cache-control''"
    by (simp add: sets_key_def accept_override_def)
  obtain h1 c1 p c2 h3 c3 where
    "get_headers other_draws brave_client None ''navigate'' = Inr (h1, c1)"
    "randomize other_draws c1 = Inr (p, c2)"
    "get_headers other_draws c2 (Some accept_override) ''navigate'' = Inr (h3, c3)"
    "header h3 ''cache-control'' = Some ''max-age=0''"
    using regeneration_keeps_request_count [OF 0 1, of other_draws brave_client other_draws
        None "''navigate''" other_draws "''navigate''", THEN conjunct2, THEN conjunct1]
    by blast
  then show ?thesis by (simp add: cache_control_after_regeneration_def)
qed

text \<open>
  C10, as stated, fails in its last part when the caller's overrides set
  \<^verbatim>\<open>cache-control\<close>: after a navigation and a regeneration, the next header set maps it to
  the override, here \<^verbatim>\<open>no-cache\<close>.
\<close>

theorem override_after_regeneration:
  "cache_control_after_regeneration other_draws brave_client (Some no_cache_override)
     = Inr (Some ''no-cache'')"
proof -
  obtain h1 c1 where 1: "get_headers other_draws brave_client None ''navigate'' = Inr (h1, c1)"
    using get_headers_total [of other_draws brave_client None "''navigate''"] by blast
  obtain p c2 where 2: "randomize other_draws c1 = Inr (p, c2)"
    using randomize_total [of other_draws c1] by blast
  obtain h3 c3 where 3: "get_headers other_draws c2 (Some no_cache_override) ''navigate'' = Inr (h3, c3)"
    and h: "header h3 ''cache-control'' = Some ''no-cache''"
    using get_headers_total [of other_draws c2 "Some no_cache_override" "''navigate''"]
    by (auto simp: no_cache_override_def)
  show ?thesis by (simp add: cache_control_after_regeneration_def 1 2 3 h)
qed

section \<open>Loading cookies and sessions\<close>








text \<open>
  Content that decodes but has the wrong shape raises as well, and after the entries read
  so far have been stored: here the first cookie is in the jar when the second entry fails.
\<close>

lemma wrong_shape_raises_midway:
  "import_session half_good_disk some_session ''session.json'' =
     (Some TypeError,
      some_session\<lparr>cookies := cookies some_session @
         [\<lparr>cookie_name = JString ''a'', cookie_content = JString ''1'', cookie_domain = JString '''',
           cookie_path = JString ''/'', cookie_secure = JBool False\<rparr>]\<rparr>)"
  by code_simp

end
